theory Spec2Isabelle
  imports Main "HOL-Library.Word"
begin

unbundle bit_operations_syntax

section \<open>Python values, objects and the object store\<close>

text \<open>
  The configuration resolver of \<^verbatim>\<open>src/utils/config.py\<close> works on what
  \<^verbatim>\<open>yaml.safe_load\<close> returns: nested dicts and lists with scalar leaves. Dicts and lists
  are mutable objects that are shared by reference, so they live in an object store
  (a list of objects; the address of an object is its index, allocation appends), and a
  value is either an immutable scalar or a reference into the store. A float is its
  IEEE 754 binary64 bit pattern. Strings are byte strings; case mapping is the ASCII one.
\<close>

type_synonym addr = nat

type_synonym pyfloat = "64 word"

datatype pyval =
    PNone
  | PBool bool
  | PInt int
  | PFloat pyfloat
  | PStr string
  | PRef addr

text \<open>The attributes that \<^verbatim>\<open>ConfigLoader.__init__\<close> sets on the instance.\<close>

record loader =
  project_root :: string
  config_path :: string
  config :: pyval
  env_loaded :: bool

text \<open>
  An object is a dict (an association list: \<^verbatim>\<open>d[k]\<close> is \<open>map_of d k\<close>), a list, or an
  instance of \<^verbatim>\<open>ConfigLoader\<close>; the instance made by \<^verbatim>\<open>__new__\<close> has no attributes
  until \<^verbatim>\<open>__init__\<close> assigns them.
\<close>

datatype pyobj =
    PDict "(string \<times> pyval) list"
  | PList "pyval list"
  | PLoader "loader option"

type_synonym store = "pyobj list"

definition heap_lookup :: "store \<Rightarrow> addr \<Rightarrow> pyobj option" where
  "heap_lookup h a = (if a < length h then Some (h ! a) else None)"

text \<open>The result of parsing a YAML document, before it is built as Python objects.\<close>

datatype yaml =
    YNull
  | YBool bool
  | YInt int
  | YFloat pyfloat
  | YStr string
  | YSeq "yaml list"
  | YMap "(string \<times> yaml) list"

text \<open>
  What reading a path gives to the two readers of the module: \<^verbatim>\<open>load_dotenv\<close> sees
  the bindings of the file, \<^verbatim>\<open>open\<close> followed by \<^verbatim>\<open>yaml.safe_load\<close> raises a
  \<^verbatim>\<open>yaml.YAMLError\<close>, raises another exception, or returns the parsed document.
\<close>

datatype yaml_view =
    RaisesYAMLError string
  | RaisesOther string
  | Parses yaml

record fsfile =
  dotenv_view :: "(string \<times> string) list"
  yaml_view :: yaml_view

datatype error =
    ConfigurationError string
  | MissingConfigError string
  | AttributeError
  | TypeError
  | KeyError

text \<open>
  The process and its surroundings: the object store, \<^verbatim>\<open>os.environ\<close>, the file system,
  the builtins \<^verbatim>\<open>int\<close> and \<^verbatim>\<open>float\<close> on strings (\<open>None\<close> is \<^verbatim>\<open>ValueError\<close>), the
  method \<^verbatim>\<open>str.upper\<close>, which is aware of Unicode, and \<^verbatim>\<open>str(Path(p))\<close>, the path as
  \<^verbatim>\<open>pathlib\<close> normalises it (the four are taken as given, every result below holds for
  any behaviour of them), the directory three levels above the module, whether \<^verbatim>\<open>src.utils.logger\<close> can be imported, the
  warnings handed to the logger, the lines printed, and the two class attributes
  \<^verbatim>\<open>ConfigLoader._instance\<close> and \<^verbatim>\<open>ConfigLoader._initialized\<close>.
\<close>

record world =
  heap :: store
  environ :: "string \<Rightarrow> string option"
  files :: "string \<Rightarrow> fsfile option"
  int_of_str :: "string \<Rightarrow> int option"
  float_of_str :: "string \<Rightarrow> pyfloat option"
  str_upper :: "string \<Rightarrow> string"
  path_str :: "string \<Rightarrow> string"
  module_root :: string
  logger_importable :: bool
  logged :: "string list"
  printed :: "string list"
  cls_instance :: "addr option"
  cls_initialized :: bool

section \<open>Strings\<close>

text \<open>
  The case mappings on the ASCII letters. \<open>lower\<close> serves the test of \<^verbatim>\<open>value.lower()\<close>
  against the eight boolean words: these are ASCII and hold neither \<^verbatim>\<open>k\<close> nor \<^verbatim>\<open>i\<close>, the
  only ASCII letters that \<^verbatim>\<open>str.lower\<close> produces from a character outside ASCII, so the
  test has the same result as with the mapping of Python. \<open>upper\<close> is not the method
  \<^verbatim>\<open>str.upper\<close> (which maps, for instance, a sharp s to two letters): that is the field
  \<open>str_upper\<close> of the world; \<open>upper\<close> takes its place in the example process only, whose
  keys are ASCII.
\<close>

definition upper_char :: "char \<Rightarrow> char" where
  "upper_char c =
     (case map_of (zip ''abcdefghijklmnopqrstuvwxyz'' ''ABCDEFGHIJKLMNOPQRSTUVWXYZ'') c of
        Some u \<Rightarrow> u
      | None \<Rightarrow> c)"

definition lower_char :: "char \<Rightarrow> char" where
  "lower_char c =
     (case map_of (zip ''ABCDEFGHIJKLMNOPQRSTUVWXYZ'' ''abcdefghijklmnopqrstuvwxyz'') c of
        Some l \<Rightarrow> l
      | None \<Rightarrow> c)"

definition upper :: "string \<Rightarrow> string" where
  "upper s = map upper_char s"

definition lower :: "string \<Rightarrow> string" where
  "lower s = map lower_char s"

definition replace_char :: "char \<Rightarrow> char \<Rightarrow> string \<Rightarrow> string" where
  "replace_char old new s = map (\<lambda>c. if c = old then new else c) s"

text \<open>\<^verbatim>\<open>s.split(".")\<close>: never empty, an empty string gives one empty segment.\<close>

fun split_on :: "char \<Rightarrow> string \<Rightarrow> string list" where
  "split_on sep [] = [[]]"
| "split_on sep (c # cs) =
     (if c = sep then [] # split_on sep cs
      else (case split_on sep cs of
              [] \<Rightarrow> [[c]]
            | p # ps \<Rightarrow> (c # p) # ps))"

definition quoted :: "string \<Rightarrow> string" where
  "quoted s = [CHR 0x27] @ s @ [CHR 0x27]"

section \<open>Lookup\<close>

text \<open>
  \<^verbatim>\<open>_convert_type\<close>: two early returns for the boolean words, then \<^verbatim>\<open>int(value)\<close>,
  then \<^verbatim>\<open>float(value)\<close>, each guarded by \<^verbatim>\<open>except ValueError\<close>, then the string itself.
\<close>

definition convert_type :: "world \<Rightarrow> string \<Rightarrow> pyval" where
  "convert_type w v =
     (if lower v \<in> set [''true'', ''yes'', ''1'', ''on''] then PBool True
      else if lower v \<in> set [''false'', ''no'', ''0'', ''off''] then PBool False
      else (case int_of_str w v of
              Some n \<Rightarrow> PInt n
            | None \<Rightarrow>
               (case float_of_str w v of
                  Some f \<Rightarrow> PFloat f
                | None \<Rightarrow> PStr v)))"

text \<open>\<^verbatim>\<open>key.upper().replace(".", "_")\<close>\<close>

definition env_key :: "world \<Rightarrow> string \<Rightarrow> string" where
  "env_key w key = replace_char (CHR ''.'') (CHR ''_'') (str_upper w key)"

text \<open>
  \<^verbatim>\<open>isinstance(value, dict) and k in value\<close>, and then \<^verbatim>\<open>value[k]\<close>: \<open>Some\<close> of the
  entry when both hold.
\<close>

definition dict_entry :: "store \<Rightarrow> pyval \<Rightarrow> string \<Rightarrow> pyval option" where
  "dict_entry h v k =
     (case v of
        PRef a \<Rightarrow>
          (case heap_lookup h a of
             Some (PDict d) \<Rightarrow> map_of d k
           | _ \<Rightarrow> None)
      | _ \<Rightarrow> None)"

definition missing_key_msg :: "string \<Rightarrow> string" where
  "missing_key_msg key = ''Required configuration key not found: '' @ quoted key"

text \<open>The \<^verbatim>\<open>for k in keys\<close> loop of \<^verbatim>\<open>get\<close>, with its two exits inside the loop.\<close>

fun get_loop :: "store \<Rightarrow> string \<Rightarrow> pyval \<Rightarrow> bool \<Rightarrow> pyval \<Rightarrow> string list \<Rightarrow> error + pyval" where
  "get_loop h key dflt required v [] = Inr v"
| "get_loop h key dflt required v (k # ks) =
     (case dict_entry h v k of
        Some v' \<Rightarrow> get_loop h key dflt required v' ks
      | None \<Rightarrow>
          if required then Inl (MissingConfigError (missing_key_msg key))
          else Inr dflt)"

text \<open>Reading an attribute of \<^verbatim>\<open>self\<close>; an instance without attributes has none.\<close>

definition attrs :: "world \<Rightarrow> addr \<Rightarrow> loader option" where
  "attrs w self =
     (case heap_lookup (heap w) self of
        Some (PLoader (Some l)) \<Rightarrow> Some l
      | _ \<Rightarrow> None)"

definition get :: "world \<Rightarrow> addr \<Rightarrow> string \<Rightarrow> pyval \<Rightarrow> bool \<Rightarrow> error + pyval" where
  "get w self key dflt required =
     (case environ w (env_key w key) of
        Some env_value \<Rightarrow> Inr (convert_type w env_value)
      | None \<Rightarrow>
          (case attrs w self of
             None \<Rightarrow> Inl AttributeError
           | Some l \<Rightarrow> get_loop (heap w) key dflt required (config l) (split_on (CHR ''.'') key)))"

section \<open>Loading\<close>

text \<open>Truth value of a parsed document, as \<^verbatim>\<open>or\<close> tests it; a float is false when it is a zero.\<close>

definition float_is_zero :: "pyfloat \<Rightarrow> bool" where
  "float_is_zero f = (f AND 0x7FFFFFFFFFFFFFFF = 0)"

fun truthy :: "yaml \<Rightarrow> bool" where
  "truthy YNull = False"
| "truthy (YBool b) = b"
| "truthy (YInt n) = (n \<noteq> 0)"
| "truthy (YFloat f) = (\<not> float_is_zero f)"
| "truthy (YStr s) = (s \<noteq> [])"
| "truthy (YSeq ys) = (ys \<noteq> [])"
| "truthy (YMap kvs) = (kvs \<noteq> [])"

text \<open>
  Building the parsed document as objects: scalars are values, every sequence and every
  mapping is a new object, allocated after its children.
\<close>

fun alloc :: "yaml \<Rightarrow> store \<Rightarrow> pyval \<times> store"
  and alloc_list :: "yaml list \<Rightarrow> store \<Rightarrow> pyval list \<times> store"
  and alloc_items :: "(string \<times> yaml) list \<Rightarrow> store \<Rightarrow> (string \<times> pyval) list \<times> store"
where
  "alloc YNull h = (PNone, h)"
| "alloc (YBool b) h = (PBool b, h)"
| "alloc (YInt n) h = (PInt n, h)"
| "alloc (YFloat f) h = (PFloat f, h)"
| "alloc (YStr s) h = (PStr s, h)"
| "alloc (YSeq ys) h =
     (case alloc_list ys h of (vs, h') \<Rightarrow> (PRef (length h'), h' @ [PList vs]))"
| "alloc (YMap kvs) h =
     (case alloc_items kvs h of (items, h') \<Rightarrow> (PRef (length h'), h' @ [PDict items]))"
| "alloc_list [] h = ([], h)"
| "alloc_list (y # ys) h =
     (case alloc y h of (v, h1) \<Rightarrow>
        (case alloc_list ys h1 of (vs, h2) \<Rightarrow> (v # vs, h2)))"
| "alloc_items [] h = ([], h)"
| "alloc_items (kv # kvs) h =
     (case alloc (snd kv) h of (v, h1) \<Rightarrow>
        (case alloc_items kvs h1 of (items, h2) \<Rightarrow> ((fst kv, v) # items, h2)))"

text \<open>Assigning the attributes of \<^verbatim>\<open>self\<close>.\<close>

definition set_attrs :: "world \<Rightarrow> addr \<Rightarrow> loader \<Rightarrow> world" where
  "set_attrs w self l = w\<lparr>heap := (heap w)[self := PLoader (Some l)]\<rparr>"

text \<open>
  \<^verbatim>\<open>load_dotenv(path)\<close> of python-dotenv with its default \<^verbatim>\<open>override=False\<close>: a
  binding of the file is set only when the variable is not in the environment yet.
\<close>

fun load_dotenv :: "(string \<times> string) list \<Rightarrow> (string \<Rightarrow> string option) \<Rightarrow> (string \<Rightarrow> string option)" where
  "load_dotenv [] env = env"
| "load_dotenv (kv # kvs) env =
     load_dotenv kvs (if env (fst kv) = None then env(fst kv \<mapsto> snd kv) else env)"

text \<open>\<^verbatim>\<open>_load_env\<close>: the loop over the candidate paths stops at the first that exists.\<close>

fun load_env_loop :: "world \<Rightarrow> addr \<Rightarrow> loader \<Rightarrow> string list \<Rightarrow> world" where
  "load_env_loop w self l [] = w"
| "load_env_loop w self l (env_path # rest) =
     (case files w env_path of
        Some f \<Rightarrow>
          set_attrs (w\<lparr>environ := load_dotenv (dotenv_view f) (environ w)\<rparr>) self
            (l\<lparr>env_loaded := True\<rparr>)
      | None \<Rightarrow> load_env_loop w self l rest)"

definition env_paths :: "string \<Rightarrow> string list" where
  "env_paths root = [root @ ''/configs/.env'', root @ ''/.env'']"

definition load_env :: "world \<Rightarrow> addr \<Rightarrow> error option \<times> world" where
  "load_env w self =
     (case attrs w self of
        None \<Rightarrow> (Some AttributeError, w)
      | Some l \<Rightarrow> (None, load_env_loop w self l (env_paths (project_root l))))"

definition not_found_msg :: "string \<Rightarrow> string" where
  "not_found_msg path =
     ''Configuration file not found: '' @ path @ [CHR 0x0A]
       @ ''Please ensure '' @ quoted ''configs/config.yaml'' @ '' exists.''"

definition invalid_yaml_msg :: "string \<Rightarrow> string \<Rightarrow> string" where
  "invalid_yaml_msg path e =
     ''Invalid YAML in configuration file: '' @ path @ [CHR 0x0A] @ ''Error: '' @ e"

definition load_failed_msg :: "string \<Rightarrow> string \<Rightarrow> string" where
  "load_failed_msg path e =
     ''Failed to load configuration file: '' @ path @ [CHR 0x0A] @ ''Error: '' @ e"

text \<open>
  \<^verbatim>\<open>yaml.safe_load(f) or {}\<close>: the document is built; when it is false, a new empty dict
  takes its place.
\<close>

definition load_or_empty :: "yaml \<Rightarrow> store \<Rightarrow> pyval \<times> store" where
  "load_or_empty y h =
     (case alloc y h of (v, h1) \<Rightarrow>
        if truthy y then (v, h1) else (PRef (length h1), h1 @ [PDict []]))"

definition load_config :: "world \<Rightarrow> addr \<Rightarrow> error option \<times> world" where
  "load_config w self =
     (case attrs w self of
        None \<Rightarrow> (Some AttributeError, w)
      | Some l \<Rightarrow>
          (case files w (config_path l) of
             None \<Rightarrow> (Some (ConfigurationError (not_found_msg (config_path l))), w)
           | Some f \<Rightarrow>
               (case yaml_view f of
                  RaisesYAMLError e \<Rightarrow>
                    (Some (ConfigurationError (invalid_yaml_msg (config_path l) e)), w)
                | RaisesOther e \<Rightarrow>
                    (Some (ConfigurationError (load_failed_msg (config_path l) e)), w)
                | Parses y \<Rightarrow>
                    (case load_or_empty y (heap w) of (v, h') \<Rightarrow>
                       (None, set_attrs (w\<lparr>heap := h'\<rparr>) self (l\<lparr>config := v\<rparr>))))))"

text \<open>The property \<^verbatim>\<open>openai_api_key\<close>.\<close>

definition openai_api_key :: "world \<Rightarrow> string option" where
  "openai_api_key w = environ w ''OPENAI_API_KEY''"

definition api_key_warning :: string where
  "api_key_warning =
     ''OPENAI_API_KEY not set. LLM features will not work.'' @ [CHR 0x0A]
       @ ''Set it in configs/.env or as an environment variable.''"

text \<open>
  \<^verbatim>\<open>_validate_required\<close>: a key that is unset or empty is a warning; the warnings go to
  the logger, or are printed when importing the logger raises \<^verbatim>\<open>ImportError\<close>.
\<close>

definition validate_required :: "world \<Rightarrow> addr \<Rightarrow> world" where
  "validate_required w self =
     (let warnings =
            (if openai_api_key w = None \<or> openai_api_key w = Some [] then [api_key_warning]
             else [])
      in if warnings \<noteq> [] then
           (if logger_importable w then w\<lparr>logged := logged w @ warnings\<rparr>
            else w\<lparr>printed := printed w @ map (\<lambda>m. ''WARNING: '' @ m) warnings\<rparr>)
         else w)"

section \<open>Construction\<close>

text \<open>\<^verbatim>\<open>__new__\<close>: a new instance only while \<^verbatim>\<open>cls._instance\<close> is \<^verbatim>\<open>None\<close>.\<close>

definition new :: "world \<Rightarrow> addr \<times> world" where
  "new w =
     (case cls_instance w of
        None \<Rightarrow>
          (length (heap w),
           w\<lparr>heap := heap w @ [PLoader None], cls_instance := Some (length (heap w))\<rparr>)
      | Some a \<Rightarrow> (a, w))"

text \<open>
  \<^verbatim>\<open>self._project_root / "configs" / "config.yaml"\<close>, as a string; the project root is
  a directory below the root of the file system, written without a final separator.
\<close>

definition default_config_path :: "string \<Rightarrow> string" where
  "default_config_path root = root @ ''/configs/config.yaml''"

text \<open>
  \<^verbatim>\<open>__init__\<close>; an empty \<^verbatim>\<open>config_path\<close> is false and gives the default path too, and a
  path that is supplied is kept as \<^verbatim>\<open>Path(config_path)\<close>, whose string is the normalised
  one.
\<close>

definition init :: "world \<Rightarrow> addr \<Rightarrow> string option \<Rightarrow> error option \<times> world" where
  "init w self cpath =
     (if cls_initialized w then (None, w)
      else
        let root = module_root w;
            path = (case cpath of
                      None \<Rightarrow> default_config_path root
                    | Some p \<Rightarrow>
                        if p \<noteq> [] then path_str w p else default_config_path root);
            w1 = set_attrs (w\<lparr>heap := heap w @ [PDict []]\<rparr>) self
                   \<lparr>project_root = root, config_path = path,
                    config = PRef (length (heap w)), env_loaded = False\<rparr>
        in case load_env w1 self of
             (Some e, w2) \<Rightarrow> (Some e, w2)
           | (None, w2) \<Rightarrow>
               (case load_config w2 self of
                  (Some e, w3) \<Rightarrow> (Some e, w3)
                | (None, w3) \<Rightarrow> (None, (validate_required w3 self)\<lparr>cls_initialized := True\<rparr>)))"

text \<open>The call \<^verbatim>\<open>ConfigLoader(config_path)\<close>: \<^verbatim>\<open>__new__\<close>, then \<^verbatim>\<open>__init__\<close> on its result.\<close>

definition construct :: "world \<Rightarrow> string option \<Rightarrow> (error + addr) \<times> world" where
  "construct w cpath =
     (case new w of (self, w1) \<Rightarrow>
        (case init w1 self cpath of
           (Some e, w2) \<Rightarrow> (Inl e, w2)
         | (None, w2) \<Rightarrow> (Inr self, w2)))"

text \<open>\<^verbatim>\<open>reload\<close>\<close>

definition reload :: "world \<Rightarrow> addr \<Rightarrow> error option \<times> world" where
  "reload w self =
     (case load_env w self of
        (Some e, w1) \<Rightarrow> (Some e, w1)
      | (None, w1) \<Rightarrow> load_config w1 self)"

section \<open>Sections\<close>

text \<open>\<^verbatim>\<open>__contains__\<close> of the loader.\<close>

definition loader_contains :: "world \<Rightarrow> addr \<Rightarrow> string \<Rightarrow> error + bool" where
  "loader_contains w self key =
     (case get w self key PNone True of
        Inr v \<Rightarrow> Inr True
      | Inl (MissingConfigError m) \<Rightarrow> Inr False
      | Inl e \<Rightarrow> Inl e)"

fun is_substring :: "string \<Rightarrow> string \<Rightarrow> bool" where
  "is_substring s [] = (s = [])"
| "is_substring s (c # cs) = (take (length s) (c # cs) = s \<or> is_substring s cs)"

text \<open>
  \<^verbatim>\<open>section in c\<close> for a string \<^verbatim>\<open>section\<close>: key membership in a dict, element
  membership in a list, substring test in a string, \<^verbatim>\<open>TypeError\<close> for the other
  scalars.
\<close>

definition py_in :: "world \<Rightarrow> string \<Rightarrow> pyval \<Rightarrow> error + bool" where
  "py_in w s c =
     (case c of
        PStr t \<Rightarrow> Inr (is_substring s t)
      | PRef a \<Rightarrow>
          (case heap_lookup (heap w) a of
             Some (PDict d) \<Rightarrow> Inr (s \<in> set (map fst d))
           | Some (PList vs) \<Rightarrow> Inr (PStr s \<in> set vs)
           | Some (PLoader l) \<Rightarrow> loader_contains w a s
           | None \<Rightarrow> Inl TypeError)
      | _ \<Rightarrow> Inl TypeError)"

text \<open>\<^verbatim>\<open>c[section]\<close> for a string \<^verbatim>\<open>section\<close>.\<close>

definition getitem :: "store \<Rightarrow> pyval \<Rightarrow> string \<Rightarrow> error + pyval" where
  "getitem h c s =
     (case c of
        PRef a \<Rightarrow>
          (case heap_lookup h a of
             Some (PDict d) \<Rightarrow> (case map_of d s of Some v \<Rightarrow> Inr v | None \<Rightarrow> Inl KeyError)
           | _ \<Rightarrow> Inl TypeError)
      | _ \<Rightarrow> Inl TypeError)"

text \<open>
  \<^verbatim>\<open>v.copy()\<close>: dicts and lists have the method and give a new object with the same
  entries; the scalars and the loader have no such attribute.
\<close>

definition copy :: "world \<Rightarrow> pyval \<Rightarrow> (error + pyval) \<times> world" where
  "copy w v =
     (case v of
        PRef a \<Rightarrow>
          (case heap_lookup (heap w) a of
             Some (PDict d) \<Rightarrow> (Inr (PRef (length (heap w))), w\<lparr>heap := heap w @ [PDict d]\<rparr>)
           | Some (PList vs) \<Rightarrow> (Inr (PRef (length (heap w))), w\<lparr>heap := heap w @ [PList vs]\<rparr>)
           | _ \<Rightarrow> (Inl AttributeError, w))
      | _ \<Rightarrow> (Inl AttributeError, w))"

definition missing_section_msg :: "string \<Rightarrow> string" where
  "missing_section_msg name = ''Configuration section not found: '' @ quoted name"

definition get_section :: "world \<Rightarrow> addr \<Rightarrow> string \<Rightarrow> (error + pyval) \<times> world" where
  "get_section w self name =
     (case attrs w self of
        None \<Rightarrow> (Inl AttributeError, w)
      | Some l \<Rightarrow>
          (case py_in w name (config l) of
             Inl e \<Rightarrow> (Inl e, w)
           | Inr False \<Rightarrow> (Inl (MissingConfigError (missing_section_msg name)), w)
           | Inr True \<Rightarrow>
               (case getitem (heap w) (config l) name of
                  Inl e \<Rightarrow> (Inl e, w)
                | Inr v \<Rightarrow> copy w v)))"

definition get_all :: "world \<Rightarrow> addr \<Rightarrow> (error + pyval) \<times> world" where
  "get_all w self =
     (case attrs w self of
        None \<Rightarrow> (Inl AttributeError, w)
      | Some l \<Rightarrow> copy w (config l))"

section \<open>What a caller can do to an object it holds\<close>

text \<open>
  \<^verbatim>\<open>d[k] = v\<close> on a dict held by the caller, and, covering every mutation of one object
  at once, the replacement of the content of the object at an address.
\<close>

fun assoc_put :: "string \<Rightarrow> pyval \<Rightarrow> (string \<times> pyval) list \<Rightarrow> (string \<times> pyval) list" where
  "assoc_put k v [] = [(k, v)]"
| "assoc_put k v (kv # kvs) = (if fst kv = k then (k, v) # kvs else kv # assoc_put k v kvs)"

definition setitem :: "world \<Rightarrow> pyval \<Rightarrow> string \<Rightarrow> pyval \<Rightarrow> error option \<times> world" where
  "setitem w target k v =
     (case target of
        PRef a \<Rightarrow>
          (case heap_lookup (heap w) a of
             Some (PDict d) \<Rightarrow> (None, w\<lparr>heap := (heap w)[a := PDict (assoc_put k v d)]\<rparr>)
           | _ \<Rightarrow> (Some TypeError, w))
      | _ \<Rightarrow> (Some TypeError, w))"

definition mutate :: "world \<Rightarrow> addr \<Rightarrow> pyobj \<Rightarrow> world" where
  "mutate w a obj = w\<lparr>heap := (heap w)[a := obj]\<rparr>"

section \<open>The words of the specification\<close>

text \<open>
  The coercion rule as the specification words it: a table tried in order, the first
  match wins; the boolean words are matched case-insensitively.
\<close>

definition same_ignoring_case :: "string \<Rightarrow> string \<Rightarrow> bool" where
  "same_ignoring_case s t = (lower s = lower t)"

definition coerce_spec :: "world \<Rightarrow> string \<Rightarrow> pyval" where
  "coerce_spec w s =
     (if \<exists>t \<in> {''true'', ''yes'', ''1'', ''on''}. same_ignoring_case s t then PBool True
      else if \<exists>t \<in> {''false'', ''no'', ''0'', ''off''}. same_ignoring_case s t then PBool False
      else if int_of_str w s \<noteq> None then PInt (the (int_of_str w s))
      else if float_of_str w s \<noteq> None then PFloat (the (float_of_str w s))
      else PStr s)"

text \<open>
  Navigation through the tree: \<open>resolves h v ks v'\<close> when walking the segments \<open>ks\<close>
  from \<open>v\<close> finds every segment in a mapping and ends at \<open>v'\<close>.
\<close>

inductive resolves :: "store \<Rightarrow> pyval \<Rightarrow> string list \<Rightarrow> pyval \<Rightarrow> bool" where
  here: "resolves h v [] v"
| step: "heap_lookup h a = Some (PDict d) \<Longrightarrow> map_of d k = Some v1 \<Longrightarrow> resolves h v1 ks v2
         \<Longrightarrow> resolves h (PRef a) (k # ks) v2"

text \<open>The same walk as a function, to evaluate it on a given tree.\<close>

fun navigate :: "store \<Rightarrow> pyval \<Rightarrow> string list \<Rightarrow> pyval option" where
  "navigate h v [] = Some v"
| "navigate h v (k # ks) =
     (case dict_entry h v k of
        None \<Rightarrow> None
      | Some v' \<Rightarrow> navigate h v' ks)"

definition segments :: "string \<Rightarrow> string list" where
  "segments key = split_on (CHR ''.'') key"

text \<open>
  The parsed document that a value in the store stands for: \<open>represents h v y\<close> when
  \<open>v\<close> is the scalar \<open>y\<close>, or a reference to a list or dict whose entries stand for the
  entries of \<open>y\<close>, in order and with the same keys.
\<close>

fun represents :: "store \<Rightarrow> pyval \<Rightarrow> yaml \<Rightarrow> bool"
  and represents_list :: "store \<Rightarrow> pyval list \<Rightarrow> yaml list \<Rightarrow> bool"
  and represents_items :: "store \<Rightarrow> (string \<times> pyval) list \<Rightarrow> (string \<times> yaml) list \<Rightarrow> bool"
where
  "represents h v YNull = (v = PNone)"
| "represents h v (YBool b) = (v = PBool b)"
| "represents h v (YInt n) = (v = PInt n)"
| "represents h v (YFloat f) = (v = PFloat f)"
| "represents h v (YStr s) = (v = PStr s)"
| "represents h v (YSeq ys) =
     (case v of
        PRef a \<Rightarrow> (case heap_lookup h a of Some (PList vs) \<Rightarrow> represents_list h vs ys | _ \<Rightarrow> False)
      | _ \<Rightarrow> False)"
| "represents h v (YMap kvs) =
     (case v of
        PRef a \<Rightarrow> (case heap_lookup h a of Some (PDict items) \<Rightarrow> represents_items h items kvs | _ \<Rightarrow> False)
      | _ \<Rightarrow> False)"
| "represents_list h vs [] = (vs = [])"
| "represents_list h vs (y # ys) =
     (case vs of [] \<Rightarrow> False | v # vs' \<Rightarrow> represents h v y \<and> represents_list h vs' ys)"
| "represents_items h items [] = (items = [])"
| "represents_items h items (kv # kvs) =
     (case items of
        [] \<Rightarrow> False
      | item # items' \<Rightarrow>
          fst item = fst kv \<and> represents h (snd item) (snd kv) \<and> represents_items h items' kvs)"

text \<open>The parsed values that are neither a sequence nor a mapping.\<close>

fun is_scalar :: "yaml \<Rightarrow> bool" where
  "is_scalar (YSeq ys) = False"
| "is_scalar (YMap kvs) = False"
| "is_scalar y = True"

text \<open>Navigation in the parsed document itself.\<close>

fun ypath :: "yaml \<Rightarrow> string list \<Rightarrow> yaml option" where
  "ypath y [] = Some y"
| "ypath (YMap kvs) (k # ks) = (case map_of kvs k of None \<Rightarrow> None | Some y \<Rightarrow> ypath y ks)"
| "ypath y (k # ks) = None"

text \<open>
  The path of the configuration document: the one supplied, as \<^verbatim>\<open>pathlib\<close> writes
  it, or \<^verbatim>\<open>configs/config.yaml\<close> under the project root when none (or an empty one) is.
\<close>

definition document_path :: "world \<Rightarrow> string option \<Rightarrow> string" where
  "document_path w cpath =
     (case cpath of
        Some p \<Rightarrow> if p = [] then module_root w @ ''/configs/config.yaml'' else path_str w p
      | None \<Rightarrow> module_root w @ ''/configs/config.yaml'')"

text \<open>
  The environment after the override source is loaded: of the two candidate files the
  first that exists is loaded, and only that one.
\<close>

definition dotenv_applied :: "string \<Rightarrow> world \<Rightarrow> (string \<Rightarrow> string option)" where
  "dotenv_applied root w =
     (case files w (root @ ''/configs/.env'') of
        Some f \<Rightarrow> load_dotenv (dotenv_view f) (environ w)
      | None \<Rightarrow>
          (case files w (root @ ''/.env'') of
             Some f \<Rightarrow> load_dotenv (dotenv_view f) (environ w)
           | None \<Rightarrow> environ w))"

text \<open>
  The class attributes are consistent: \<^verbatim>\<open>_instance\<close>, when set, is an instance of the
  loader, and \<^verbatim>\<open>_initialized\<close> is set only when that instance has its attributes.
\<close>

definition instance_ok :: "world \<Rightarrow> bool" where
  "instance_ok w =
     (case cls_instance w of
        None \<Rightarrow> \<not> cls_initialized w
      | Some a \<Rightarrow>
          (case heap_lookup (heap w) a of
             Some (PLoader l) \<Rightarrow> l \<noteq> None \<or> \<not> cls_initialized w
           | _ \<Rightarrow> False))"

text \<open>
  What happens in a process, as far as the resolver can see it: construction calls,
  \<^verbatim>\<open>reload\<close> on the instance of the class, and changes of the environment, of the files
  and of the importability of the logger made from outside.
\<close>

datatype event =
    Construct "string option"
  | Reload
  | SetEnv string "string option"
  | SetFile string "fsfile option"
  | SetLogger bool

fun step :: "world \<Rightarrow> event \<Rightarrow> (error + addr) option \<times> world" where
  "step w (Construct cpath) = (case construct w cpath of (r, w') \<Rightarrow> (Some r, w'))"
| "step w Reload =
     (case cls_instance w of
        None \<Rightarrow> (None, w)
      | Some a \<Rightarrow> (None, snd (reload w a)))"
| "step w (SetEnv k v) = (None, w\<lparr>environ := (environ w)(k := v)\<rparr>)"
| "step w (SetFile p f) = (None, w\<lparr>files := (files w)(p := f)\<rparr>)"
| "step w (SetLogger b) = (None, w\<lparr>logger_importable := b\<rparr>)"

text \<open>The results of the construction calls of a run, in order, and the final state.\<close>

fun run :: "world \<Rightarrow> event list \<Rightarrow> (error + addr) list \<times> world" where
  "run w [] = ([], w)"
| "run w (e # es) =
     (case step w e of (r, w1) \<Rightarrow>
        (case run w1 es of (rs, w2) \<Rightarrow>
           ((case r of None \<Rightarrow> rs | Some x \<Rightarrow> x # rs), w2)))"

text \<open>The object a call returned, read in the store the call left.\<close>

definition returned_object :: "(error + pyval) \<times> world \<Rightarrow> error + pyobj option" where
  "returned_object rw =
     (case fst rw of
        Inl e \<Rightarrow> Inl e
      | Inr (PRef a) \<Rightarrow> Inr (heap_lookup (heap (snd rw)) a)
      | Inr v \<Rightarrow> Inr None)"

section \<open>An example process\<close>

text \<open>
  A stand-in for \<^verbatim>\<open>int\<close> on strings, for the examples only: unsigned ASCII decimal
  digits.
\<close>

fun digits_value :: "nat \<Rightarrow> string \<Rightarrow> nat option" where
  "digits_value acc [] = Some acc"
| "digits_value acc (c # cs) =
     (case map_of (zip ''0123456789'' [0, 1, 2, 3, 4, 5, 6, 7, 8, 9]) c of
        Some d \<Rightarrow> digits_value (10 * acc + d) cs
      | None \<Rightarrow> None)"

definition demo_int :: "string \<Rightarrow> int option" where
  "demo_int s = (if s = [] then None else map_option int (digits_value 0 s))"

definition demo_sections :: "(string \<times> yaml) list" where
  "demo_sections =
     [(''app'', YMap [(''debug'', YStr ''true''), (''name'', YNull)]),
      (''document_processing'',
         YMap [(''chunk_size'', YInt 500), (''allowed_extensions'', YSeq [YStr ''.pdf''])]),
      (''llm'', YMap [(''model'', YStr ''gpt-3.5-turbo''), (''options'', YMap [(''seed'', YInt 1)])]),
      (''retries'', YInt 3),
      (''tags'', YSeq [YStr ''exam''])]"

definition demo_doc :: yaml where
  "demo_doc = YMap demo_sections"

definition demo_start :: world where
  "demo_start =
     \<lparr>heap = [],
      environ = [''DOCUMENT_PROCESSING_CHUNK_SIZE'' \<mapsto> ''800''],
      files =
        [''/app/configs/config.yaml'' \<mapsto> \<lparr>dotenv_view = [], yaml_view = Parses demo_doc\<rparr>,
         ''/app/configs/broken.yaml'' \<mapsto>
           \<lparr>dotenv_view = [], yaml_view = RaisesYAMLError ''mapping values are not allowed here''\<rparr>],
      int_of_str = demo_int,
      float_of_str = (\<lambda>s. None),
      str_upper = upper,
      path_str = (\<lambda>p. p),
      module_root = ''/app'',
      logger_importable = False,
      logged = [],
      printed = [],
      cls_instance = None,
      cls_initialized = False\<rparr>"

text \<open>The process after the module-level \<^verbatim>\<open>config = get_config()\<close>.\<close>

definition demo_world :: world where
  "demo_world = snd (construct demo_start None)"

definition demo_loader :: loader where
  "demo_loader =
     \<lparr>project_root = ''/app'', config_path = ''/app/configs/config.yaml'',
      config = PRef 8, env_loaded = False\<rparr>"

text \<open>A run of that process: construction calls with changes from outside between them.\<close>

definition demo_events :: "event list" where
  "demo_events =
     [Construct (Some ''/nowhere.yaml''),
      Construct None,
      SetFile ''/app/configs/config.yaml'' None,
      Construct (Some ''/app/configs/broken.yaml''),
      SetEnv ''OPENAI_API_KEY'' (Some ''sk-test''),
      Construct (Some ''/nowhere.yaml'')]"

text \<open>
  A caller of that process takes the section \<^verbatim>\<open>llm\<close>, reads the nested mapping
  \<^verbatim>\<open>options\<close> out of what it was given, and sets \<^verbatim>\<open>seed\<close> in it:
  \<^verbatim>\<open>s = config.get_section("llm"); s["options"]["seed"] = 2\<close>.
\<close>

definition demo_section :: "(error + pyval) \<times> world" where
  "demo_section = get_section demo_world 0 ''llm''"

definition demo_nested :: "error + pyval" where
  "demo_nested =
     (case fst demo_section of
        Inl e \<Rightarrow> Inl e
      | Inr s \<Rightarrow> getitem (heap (snd demo_section)) s ''options'')"

definition demo_mutated :: world where
  "demo_mutated =
     (case demo_nested of
        Inl e \<Rightarrow> snd demo_section
      | Inr t \<Rightarrow> snd (setitem (snd demo_section) t ''seed'' (PInt 2)))"

text \<open>
  The document of that process edited on the disk after the construction: the chunk size
  is now 600, the retries 5, the other sections are gone.
\<close>

definition demo_doc_edited :: yaml where
  "demo_doc_edited =
     YMap [(''document_processing'', YMap [(''chunk_size'', YInt 600)]), (''retries'', YInt 5)]"

definition demo_edited :: world where
  "demo_edited =
     demo_world\<lparr>files := (files demo_world)
       (''/app/configs/config.yaml'' \<mapsto> \<lparr>dotenv_view = [], yaml_view = Parses demo_doc_edited\<rparr>)\<rparr>"

text \<open>The document removed from the disk.\<close>

definition demo_deleted :: world where
  "demo_deleted = demo_world\<lparr>files := (files demo_world)(''/app/configs/config.yaml'' := None)\<rparr>"

section \<open>Facts about strings and navigation\<close>

lemma lower_true_words:
  "lower ''true'' = ''true''" "lower ''yes'' = ''yes''" "lower ''1'' = ''1''" "lower ''on'' = ''on''"
  by (simp_all add: lower_def lower_char_def)

lemma lower_false_words:
  "lower ''false'' = ''false''" "lower ''no'' = ''no''" "lower ''0'' = ''0''" "lower ''off'' = ''off''"
  by (simp_all add: lower_def lower_char_def)

lemma convert_type_spec: "convert_type w s = coerce_spec w s"
  by (auto simp: convert_type_def coerce_spec_def same_ignoring_case_def
        lower_true_words lower_false_words split: option.splits)

lemma resolves_navigate: "resolves h v ks v' \<Longrightarrow> navigate h v ks = Some v'"
  by (induction rule: resolves.induct) (simp_all add: dict_entry_def)

lemma navigate_resolves: "navigate h v ks = Some v' \<Longrightarrow> resolves h v ks v'"
proof (induction ks arbitrary: v)
  case Nil
  then show ?case by (simp add: resolves.here)
next
  case (Cons k ks)
  from Cons.prems obtain v1 where e: "dict_entry h v k = Some v1" and n: "navigate h v1 ks = Some v'"
    by (auto split: option.splits)
  from e obtain a d where v: "v = PRef a" and a: "heap_lookup h a = Some (PDict d)"
    and d: "map_of d k = Some v1"
    by (auto simp: dict_entry_def split: pyval.splits option.splits pyobj.splits)
  from Cons.IH [OF n] a d show ?case unfolding v by (rule resolves.step [rotated 2])
qed

lemma resolves_iff: "resolves h v ks v' \<longleftrightarrow> navigate h v ks = Some v'"
  using resolves_navigate navigate_resolves by blast

lemma get_loop_navigate:
  "get_loop h key dflt required v ks =
     (case navigate h v ks of
        Some v' \<Rightarrow> Inr v'
      | None \<Rightarrow> if required then Inl (MissingConfigError (missing_key_msg key)) else Inr dflt)"
proof (induction ks arbitrary: v)
  case Nil
  show ?case by simp
next
  case (Cons k ks)
  show ?case
  proof (cases "dict_entry h v k")
    case None
    then show ?thesis by simp
  next
    case (Some v1)
    then show ?thesis by (simp add: Cons.IH)
  qed
qed

lemma get_unset:
  assumes "environ w (env_key w key) = None" and "attrs w self = Some l"
  shows "get w self key dflt required =
     (case navigate (heap w) (config l) (segments key) of
        Some v' \<Rightarrow> Inr v'
      | None \<Rightarrow> if required then Inl (MissingConfigError (missing_key_msg key)) else Inr dflt)"
  using assms by (simp add: get_def get_loop_navigate segments_def)

section \<open>Facts about the store and about loading\<close>

lemma heap_lookup_append: "heap_lookup h a = Some obj \<Longrightarrow> heap_lookup (h @ ext) a = Some obj"
  by (auto simp: heap_lookup_def nth_append split: if_splits)

lemma represents_mono:
  "represents h v y \<Longrightarrow> represents (h @ ext) v y"
  "represents_list h vs ys \<Longrightarrow> represents_list (h @ ext) vs ys"
  "represents_items h items kvs \<Longrightarrow> represents_items (h @ ext) items kvs"
proof (induction h v y and h vs ys and h items kvs rule: represents_represents_list_represents_items.induct)
  case (6 h v ys)
  from 6(2) obtain a vs where v: "v = PRef a" and a: "heap_lookup h a = Some (PList vs)"
    and r: "represents_list h vs ys"
    by (auto split: pyval.splits option.splits pyobj.splits)
  from 6(1) [OF v a refl r] heap_lookup_append [OF a, of ext] show ?case by (simp add: v)
next
  case (7 h v kvs)
  from 7(2) obtain a items where v: "v = PRef a" and a: "heap_lookup h a = Some (PDict items)"
    and r: "represents_items h items kvs"
    by (auto split: pyval.splits option.splits pyobj.splits)
  from 7(1) [OF v a refl r] heap_lookup_append [OF a, of ext] show ?case by (simp add: v)
qed (auto split: list.splits)

lemma alloc_extends:
  "\<exists>ext. snd (alloc y h) = h @ ext"
  "\<exists>ext. snd (alloc_list ys h) = h @ ext"
  "\<exists>ext. snd (alloc_items kvs h) = h @ ext"
proof (induction y h and ys h and kvs h rule: alloc_alloc_list_alloc_items.induct)
  case (6 ys h)
  then show ?case by (auto split: prod.splits)
next
  case (7 kvs h)
  then show ?case by (auto split: prod.splits)
next
  case (9 y ys h)
  then show ?case by (fastforce split: prod.splits)
next
  case (11 kv kvs h)
  then show ?case by (fastforce split: prod.splits)
qed simp_all

lemma alloc_represents:
  "represents (snd (alloc y h)) (fst (alloc y h)) y"
  "represents_list (snd (alloc_list ys h)) (fst (alloc_list ys h)) ys"
  "represents_items (snd (alloc_items kvs h)) (fst (alloc_items kvs h)) kvs"
proof (induction y h and ys h and kvs h rule: alloc_alloc_list_alloc_items.induct)
  case (6 ys h)
  then show ?case
    by (auto simp: heap_lookup_def represents_mono split: prod.splits)
next
  case (7 kvs h)
  then show ?case
    by (auto simp: heap_lookup_def represents_mono split: prod.splits)
next
  case (9 y ys h)
  obtain v h1 where a: "alloc y h = (v, h1)" by (cases "alloc y h")
  obtain vs h2 where b: "alloc_list ys h1 = (vs, h2)" by (cases "alloc_list ys h1")
  from alloc_extends(2) [of ys h1] b obtain ext where e: "h2 = h1 @ ext" by auto
  from 9(1) a have "represents h1 v y" by simp
  then have "represents h2 v y" unfolding e by (rule represents_mono)
  moreover from 9(2) [OF a [symmetric]] b have "represents_list h2 vs ys" by simp
  ultimately show ?case using a b by simp
next
  case (11 kv kvs h)
  obtain v h1 where a: "alloc (snd kv) h = (v, h1)" by (cases "alloc (snd kv) h")
  obtain items h2 where b: "alloc_items kvs h1 = (items, h2)" by (cases "alloc_items kvs h1")
  from alloc_extends(3) [of kvs h1] b obtain ext where e: "h2 = h1 @ ext" by auto
  from 11(1) a have "represents h1 v (snd kv)" by simp
  then have "represents h2 v (snd kv)" unfolding e by (rule represents_mono)
  moreover from 11(2) [OF a [symmetric]] b have "represents_items h2 items kvs" by simp
  ultimately show ?case using a b by simp
qed simp_all

lemma represents_items_map_of:
  "represents_items h items kvs \<Longrightarrow>
     (case map_of kvs k of
        None \<Rightarrow> map_of items k = None
      | Some y \<Rightarrow> (\<exists>v. map_of items k = Some v \<and> represents h v y))"
proof (induction kvs arbitrary: items)
  case Nil
  then show ?case by simp
next
  case (Cons kv kvs)
  then show ?case by (cases items) (auto split: option.splits)
qed

lemma navigate_ypath:
  "represents h v y \<Longrightarrow>
     (case ypath y ks of
        None \<Rightarrow> navigate h v ks = None
      | Some y' \<Rightarrow> (\<exists>v'. navigate h v ks = Some v' \<and> represents h v' y'))"
proof (induction ks arbitrary: v y)
  case Nil
  then show ?case by simp
next
  case (Cons k ks)
  show ?case
  proof (cases y)
    case (YMap kvs)
    with Cons.prems obtain a items where v: "v = PRef a"
      and a: "heap_lookup h a = Some (PDict items)" and i: "represents_items h items kvs"
      by (auto split: pyval.splits option.splits pyobj.splits)
    have d: "dict_entry h v k = map_of items k" by (simp add: dict_entry_def v a)
    show ?thesis
    proof (cases "map_of kvs k")
      case None
      with represents_items_map_of [OF i, of k] d YMap show ?thesis by simp
    next
      case (Some y1)
      with represents_items_map_of [OF i, of k] obtain v1
        where m: "map_of items k = Some v1" and r: "represents h v1 y1" by auto
      from Cons.IH [OF r] show ?thesis
        by (cases "ypath y1 ks") (simp_all add: YMap Some d m)
    qed
  next
    case YNull with Cons.prems show ?thesis by (simp add: dict_entry_def)
  next
    case (YBool b) with Cons.prems show ?thesis by (simp add: dict_entry_def)
  next
    case (YInt n) with Cons.prems show ?thesis by (simp add: dict_entry_def)
  next
    case (YFloat f) with Cons.prems show ?thesis by (simp add: dict_entry_def)
  next
    case (YStr s) with Cons.prems show ?thesis by (simp add: dict_entry_def)
  next
    case (YSeq ys)
    with Cons.prems show ?thesis
      by (auto simp: dict_entry_def split: pyval.splits option.splits pyobj.splits)
  qed
qed

lemma attrs_set_attrs: "self < length (heap w) \<Longrightarrow> attrs (set_attrs w self l) self = Some l"
  by (simp add: attrs_def set_attrs_def heap_lookup_def)

lemma set_attrs_fields [simp]:
  "environ (set_attrs w self l) = environ w"
  "files (set_attrs w self l) = files w"
  "int_of_str (set_attrs w self l) = int_of_str w"
  "float_of_str (set_attrs w self l) = float_of_str w"
  "module_root (set_attrs w self l) = module_root w"
  "str_upper (set_attrs w self l) = str_upper w"
  "path_str (set_attrs w self l) = path_str w"
  "logger_importable (set_attrs w self l) = logger_importable w"
  "logged (set_attrs w self l) = logged w"
  "printed (set_attrs w self l) = printed w"
  "cls_instance (set_attrs w self l) = cls_instance w"
  "cls_initialized (set_attrs w self l) = cls_initialized w"
  "length (heap (set_attrs w self l)) = length (heap w)"
  by (simp_all add: set_attrs_def)

lemma load_env_loop_fields [simp]:
  "files (load_env_loop w self l ps) = files w"
  "int_of_str (load_env_loop w self l ps) = int_of_str w"
  "float_of_str (load_env_loop w self l ps) = float_of_str w"
  "module_root (load_env_loop w self l ps) = module_root w"
  "str_upper (load_env_loop w self l ps) = str_upper w"
  "path_str (load_env_loop w self l ps) = path_str w"
  "logger_importable (load_env_loop w self l ps) = logger_importable w"
  "logged (load_env_loop w self l ps) = logged w"
  "printed (load_env_loop w self l ps) = printed w"
  "cls_instance (load_env_loop w self l ps) = cls_instance w"
  "cls_initialized (load_env_loop w self l ps) = cls_initialized w"
  "length (heap (load_env_loop w self l ps)) = length (heap w)"
  by (induction ps; simp split: option.splits)+

lemma load_env_loop_attrs:
  assumes "attrs w self = Some l"
  shows "\<exists>b. attrs (load_env_loop w self l ps) self = Some (l\<lparr>env_loaded := b\<rparr>)"
proof (induction ps)
  case Nil
  have "l = l\<lparr>env_loaded := env_loaded l\<rparr>" by simp
  with assms show ?case by (metis load_env_loop.simps(1))
next
  case (Cons p ps)
  from assms have s: "self < length (heap w)"
    by (auto simp: attrs_def heap_lookup_def split: if_splits)
  show ?case
  proof (cases "files w p")
    case None
    with Cons show ?thesis by simp
  next
    case (Some f)
    have "attrs (set_attrs (w\<lparr>environ := load_dotenv (dotenv_view f) (environ w)\<rparr>) self (l\<lparr>env_loaded := True\<rparr>)) self
        = Some (l\<lparr>env_loaded := True\<rparr>)"
      using s by (simp add: attrs_set_attrs)
    with Some show ?thesis by auto
  qed
qed

lemma load_env_loop_environ:
  "environ (load_env_loop w self l (env_paths root)) = dotenv_applied root w"
  by (simp add: env_paths_def dotenv_applied_def split: option.splits)

lemma load_env_attrs:
  assumes "attrs w self = Some l"
  shows "load_env w self = (None, load_env_loop w self l (env_paths (project_root l)))"
  using assms by (simp add: load_env_def)

lemma dotenv_applied_cong:
  "environ w' = environ w \<Longrightarrow> files w' = files w \<Longrightarrow> dotenv_applied root w' = dotenv_applied root w"
  by (auto simp: dotenv_applied_def split: option.splits)

lemma load_env_loop_heap:
  "a \<noteq> self \<Longrightarrow> heap (load_env_loop w self l ps) ! a = heap w ! a"
  by (induction ps) (simp_all add: set_attrs_def split: option.splits)

lemma init_path:
  "(case cpath of None \<Rightarrow> default_config_path (module_root w)
    | Some p \<Rightarrow> if p \<noteq> [] then path_str w p else default_config_path (module_root w))
     = document_path w cpath"
  by (simp add: document_path_def default_config_path_def split: option.splits)

lemma init_fresh:
  assumes "\<not> cls_initialized w" and "self < length (heap w)"
  shows "\<exists>w2 b.
     init w self cpath =
       (case load_config w2 self of
          (Some e, w3) \<Rightarrow> (Some e, w3)
        | (None, w3) \<Rightarrow> (None, (validate_required w3 self)\<lparr>cls_initialized := True\<rparr>))
     \<and> attrs w2 self =
         Some \<lparr>project_root = module_root w, config_path = document_path w cpath,
               config = PRef (length (heap w)), env_loaded = b\<rparr>
     \<and> files w2 = files w \<and> environ w2 = dotenv_applied (module_root w) w
     \<and> logged w2 = logged w \<and> printed w2 = printed w
     \<and> logger_importable w2 = logger_importable w
     \<and> cls_instance w2 = cls_instance w \<and> \<not> cls_initialized w2
     \<and> length (heap w2) = Suc (length (heap w))
     \<and> (\<forall>a < length (heap w). a \<noteq> self \<longrightarrow> heap w2 ! a = heap w ! a)"
proof -
  define l0 where "l0 = \<lparr>project_root = module_root w, config_path = document_path w cpath,
               config = PRef (length (heap w)), env_loaded = False\<rparr>"
  define w1 where "w1 = set_attrs (w\<lparr>heap := heap w @ [PDict []]\<rparr>) self l0"
  define w2 where "w2 = load_env_loop w1 self l0 (env_paths (module_root w))"
  have a1: "attrs w1 self = Some l0"
    unfolding w1_def using assms(2) by (simp add: attrs_set_attrs)
  have le: "load_env w1 self = (None, w2)"
    using load_env_attrs [OF a1] by (simp add: w2_def l0_def)
  from load_env_loop_attrs [OF a1, of "env_paths (module_root w)"]
  obtain b where a2: "attrs w2 self = Some (l0\<lparr>env_loaded := b\<rparr>)"
    unfolding w2_def by blast
  have i: "init w self cpath =
       (case load_config w2 self of
          (Some e, w3) \<Rightarrow> (Some e, w3)
        | (None, w3) \<Rightarrow> (None, (validate_required w3 self)\<lparr>cls_initialized := True\<rparr>))"
    using assms(1) le by (simp add: init_def init_path Let_def w1_def [symmetric] l0_def [symmetric])
  have e: "environ w2 = dotenv_applied (module_root w) w"
    unfolding w2_def load_env_loop_environ
    by (rule dotenv_applied_cong) (simp_all add: w1_def)
  have h: "\<forall>a < length (heap w). a \<noteq> self \<longrightarrow> heap w2 ! a = heap w ! a"
    by (simp add: w2_def load_env_loop_heap w1_def set_attrs_def nth_append)
  show ?thesis
    apply (rule exI [of _ w2], rule exI [of _ b])
    using i a2 e h assms(1) by (simp add: l0_def w2_def w1_def)
qed


lemma load_config_missing:
  assumes "attrs w self = Some l" and "files w (config_path l) = None"
  shows "load_config w self = (Some (ConfigurationError (not_found_msg (config_path l))), w)"
  using assms by (simp add: load_config_def)

lemma load_config_bad_yaml:
  assumes "attrs w self = Some l" and "files w (config_path l) = Some f"
    and "yaml_view f = RaisesYAMLError e"
  shows "load_config w self
           = (Some (ConfigurationError (invalid_yaml_msg (config_path l) e)), w)"
  using assms by (simp add: load_config_def)

lemma load_config_unreadable:
  assumes "attrs w self = Some l" and "files w (config_path l) = Some f"
    and "yaml_view f = RaisesOther e"
  shows "load_config w self
           = (Some (ConfigurationError (load_failed_msg (config_path l) e)), w)"
  using assms by (simp add: load_config_def)

lemma load_config_parses:
  assumes "attrs w self = Some l" and "files w (config_path l) = Some f"
    and "yaml_view f = Parses y"
  shows "load_config w self
           = (None, set_attrs (w\<lparr>heap := snd (load_or_empty y (heap w))\<rparr>) self
                      (l\<lparr>config := fst (load_or_empty y (heap w))\<rparr>))"
  using assms by (simp add: load_config_def split: prod.splits)

lemma validate_required_fields [simp]:
  "heap (validate_required w self) = heap w"
  "environ (validate_required w self) = environ w"
  "files (validate_required w self) = files w"
  "cls_instance (validate_required w self) = cls_instance w"
  "cls_initialized (validate_required w self) = cls_initialized w"
  "logger_importable (validate_required w self) = logger_importable w"
  "module_root (validate_required w self) = module_root w"
  "str_upper (validate_required w self) = str_upper w"
  "path_str (validate_required w self) = path_str w"
  "int_of_str (validate_required w self) = int_of_str w"
  "float_of_str (validate_required w self) = float_of_str w"
  by (simp_all add: validate_required_def Let_def)

lemma validate_required_warns:
  assumes "environ w ''OPENAI_API_KEY'' = None \<or> environ w ''OPENAI_API_KEY'' = Some []"
  shows "if logger_importable w
         then logged (validate_required w self) = logged w @ [api_key_warning]
              \<and> printed (validate_required w self) = printed w
         else printed (validate_required w self) = printed w @ [''WARNING: '' @ api_key_warning]
              \<and> logged (validate_required w self) = logged w"
  using assms by (auto simp: validate_required_def openai_api_key_def Let_def)

lemma validate_required_silent:
  assumes "environ w ''OPENAI_API_KEY'' = Some k" and "k \<noteq> []"
  shows "logged (validate_required w self) = logged w
         \<and> printed (validate_required w self) = printed w"
  using assms by (simp add: validate_required_def openai_api_key_def Let_def)

lemma new_fresh:
  assumes "instance_ok w"
  shows "\<exists>self w0. new w = (self, w0) \<and> self < length (heap w0)
     \<and> cls_instance w0 = Some self
     \<and> cls_initialized w0 = cls_initialized w
     \<and> files w0 = files w \<and> environ w0 = environ w \<and> module_root w0 = module_root w
     \<and> path_str w0 = path_str w
     \<and> logged w0 = logged w \<and> printed w0 = printed w
     \<and> logger_importable w0 = logger_importable w
     \<and> (\<exists>x. heap_lookup (heap w0) self = Some (PLoader x))
     \<and> (\<forall>a. cls_instance w = Some a \<longrightarrow> self = a \<and> w0 = w)"
proof (cases "cls_instance w")
  case None
  then show ?thesis by (simp add: new_def heap_lookup_def)
next
  case (Some a)
  with assms obtain x where "heap_lookup (heap w) a = Some (PLoader x)"
    by (auto simp: instance_ok_def split: option.splits pyobj.splits)
  with Some show ?thesis
    by (auto simp: new_def heap_lookup_def split: if_splits)
qed

lemma document_path_cong:
  "module_root w' = module_root w \<Longrightarrow> path_str w' = path_str w
     \<Longrightarrow> document_path w' cpath = document_path w cpath"
  by (simp add: document_path_def split: option.splits)

lemma load_or_empty_extends: "\<exists>ext. snd (load_or_empty y h) = h @ ext"
proof -
  from alloc_extends(1) [of y h] obtain ext where "snd (alloc y h) = h @ ext" by blast
  then show ?thesis by (cases "alloc y h") (auto simp: load_or_empty_def)
qed

lemma load_or_empty_represents:
  "represents (snd (load_or_empty y h)) (fst (load_or_empty y h)) (if truthy y then y else YMap [])"
  using alloc_represents(1) [of y h]
  by (cases "alloc y h") (auto simp: load_or_empty_def heap_lookup_def)

lemma instance_ok_attrs:
  assumes "cls_instance w = Some a" and "attrs w a = Some l"
  shows "instance_ok w"
  using assms
  by (auto simp: instance_ok_def attrs_def split: option.splits pyobj.splits)

lemma load_config_keeps:
  assumes "attrs w self = Some l"
  shows "cls_instance (snd (load_config w self)) = cls_instance w
       \<and> cls_initialized (snd (load_config w self)) = cls_initialized w
       \<and> (\<exists>l'. attrs (snd (load_config w self)) self = Some l')"
proof (cases "files w (config_path l)")
  case None
  with assms show ?thesis by (simp add: load_config_missing)
next
  case (Some f)
  show ?thesis
  proof (cases "yaml_view f")
    case (RaisesYAMLError e)
    with assms Some show ?thesis by (simp add: load_config_bad_yaml)
  next
    case (RaisesOther e)
    with assms Some show ?thesis by (simp add: load_config_unreadable)
  next
    case (Parses y)
    from assms have s: "self < length (heap w)"
      by (auto simp: attrs_def heap_lookup_def split: if_splits)
    from load_or_empty_extends [of y "heap w"] obtain ext
      where e: "snd (load_or_empty y (heap w)) = heap w @ ext" by blast
    have "self < length (heap (w\<lparr>heap := snd (load_or_empty y (heap w))\<rparr>))"
      using s by (simp add: e)
    from attrs_set_attrs [OF this] show ?thesis
      by (simp add: load_config_parses [OF assms Some Parses])
  qed
qed

lemma reload_keeps:
  assumes "instance_ok w" and "cls_instance w = Some a"
  shows "instance_ok (snd (reload w a)) \<and> cls_instance (snd (reload w a)) = Some a
       \<and> cls_initialized (snd (reload w a)) = cls_initialized w"
proof (cases "attrs w a")
  case None
  with assms show ?thesis by (simp add: reload_def load_env_def)
next
  case (Some l)
  define w1 where "w1 = load_env_loop w a l (env_paths (project_root l))"
  from load_env_loop_attrs [OF Some, of "env_paths (project_root l)"]
  obtain b where a1: "attrs w1 a = Some (l\<lparr>env_loaded := b\<rparr>)" unfolding w1_def by blast
  have r: "reload w a = load_config w1 a"
    by (simp add: reload_def load_env_attrs [OF Some] w1_def)
  from load_config_keeps [OF a1] obtain l' where
    k: "cls_instance (snd (load_config w1 a)) = cls_instance w1"
       "cls_initialized (snd (load_config w1 a)) = cls_initialized w1"
       "attrs (snd (load_config w1 a)) a = Some l'"
    by blast
  have c: "cls_instance (snd (reload w a)) = Some a"
    using k(1) assms(2) by (simp add: r w1_def)
  from instance_ok_attrs [OF c] k(3) have "instance_ok (snd (reload w a))" by (simp add: r)
  with c k(2) show ?thesis by (simp add: r w1_def)
qed

lemma construct_initialized:
  assumes "cls_initialized w" and "cls_instance w = Some a"
  shows "construct w cpath = (Inr a, w)"
  using assms by (simp add: construct_def new_def init_def)

lemma construct_uninitialized:
  assumes "instance_ok w" and "\<not> cls_initialized w"
  shows "\<exists>self w'. instance_ok w' \<and> cls_instance w' = Some self
       \<and> (\<forall>a. cls_instance w = Some a \<longrightarrow> self = a)
       \<and> ((\<exists>e. construct w cpath = (Inl e, w') \<and> \<not> cls_initialized w')
          \<or> (construct w cpath = (Inr self, w') \<and> cls_initialized w'))"
proof -
  from new_fresh [OF assms(1)] obtain self w0 where n: "new w = (self, w0)"
    and s: "self < length (heap w0)" and i0: "cls_initialized w0 = cls_initialized w"
    and c0: "cls_instance w0 = Some self"
    and same: "\<forall>a. cls_instance w = Some a \<longrightarrow> self = a \<and> w0 = w"
    by blast
  from assms(2) i0 have ni: "\<not> cls_initialized w0" by simp
  from init_fresh [OF ni s, of cpath] obtain w2 l where
    i: "init w0 self cpath =
       (case load_config w2 self of
          (Some e, w3) \<Rightarrow> (Some e, w3)
        | (None, w3) \<Rightarrow> (None, (validate_required w3 self)\<lparr>cls_initialized := True\<rparr>))"
    and a2: "attrs w2 self = Some l"
    and c2: "cls_instance w2 = cls_instance w0" and i2: "\<not> cls_initialized w2"
    by blast
  obtain r w3 where lc: "load_config w2 self = (r, w3)" by (cases "load_config w2 self")
  from load_config_keeps [OF a2] lc obtain l' where
    k: "cls_instance w3 = Some self" "\<not> cls_initialized w3" "attrs w3 self = Some l'"
    using c2 c0 i2 by auto
  show ?thesis
  proof (cases r)
    case None
    define w4 where "w4 = (validate_required w3 self)\<lparr>cls_initialized := True\<rparr>"
    have c: "construct w cpath = (Inr self, w4)"
      by (simp add: construct_def n i lc None w4_def)
    have a4: "attrs w4 self = Some l'" using k(3) by (simp add: w4_def attrs_def)
    have c4: "cls_instance w4 = Some self" using k(1) by (simp add: w4_def)
    from instance_ok_attrs [OF c4 a4] c c4 same show ?thesis
      by (intro exI [of _ self] exI [of _ w4]) (simp add: w4_def)
  next
    case (Some e)
    have c: "construct w cpath = (Inl e, w3)"
      by (simp add: construct_def n i lc Some)
    from instance_ok_attrs [OF k(1) k(3)] c k same show ?thesis
      by (intro exI [of _ self] exI [of _ w3]) simp
  qed
qed

lemma step_keeps:
  assumes "instance_ok w"
  shows "instance_ok (snd (step w e))
       \<and> (\<forall>a. cls_instance w = Some a \<longrightarrow> cls_instance (snd (step w e)) = Some a)
       \<and> (cls_initialized w \<longrightarrow> cls_initialized (snd (step w e)))
       \<and> (\<forall>a. fst (step w e) = Some (Inr a)
            \<longrightarrow> cls_initialized (snd (step w e)) \<and> cls_instance (snd (step w e)) = Some a)"
proof (cases e)
  case (Construct cpath)
  show ?thesis
  proof (cases "cls_initialized w")
    case True
    with assms obtain a where a: "cls_instance w = Some a"
      by (auto simp: instance_ok_def split: option.splits)
    from construct_initialized [OF True a, of cpath] assms True a show ?thesis
      by (simp add: Construct)
  next
    case False
    from construct_uninitialized [OF assms False, of cpath] False show ?thesis
      by (auto simp: Construct)
  qed
next
  case Reload
  show ?thesis
  proof (cases "cls_instance w")
    case None
    with assms show ?thesis by (simp add: Reload)
  next
    case (Some a)
    from reload_keeps [OF assms Some] Some show ?thesis by (simp add: Reload)
  qed
next
  case (SetEnv k v)
  with assms show ?thesis
    by (auto simp: instance_ok_def split: option.splits pyobj.splits)
next
  case (SetFile p f)
  with assms show ?thesis
    by (auto simp: instance_ok_def split: option.splits pyobj.splits)
next
  case (SetLogger b)
  with assms show ?thesis
    by (auto simp: instance_ok_def split: option.splits pyobj.splits)
qed

lemma run_keeps:
  assumes "instance_ok w"
  shows "instance_ok (snd (run w es))
       \<and> (\<forall>a. cls_instance w = Some a \<longrightarrow> cls_instance (snd (run w es)) = Some a)
       \<and> (cls_initialized w \<longrightarrow> cls_initialized (snd (run w es)))"
  using assms
proof (induction es arbitrary: w)
  case Nil
  then show ?case by simp
next
  case (Cons e es)
  obtain r w1 where s: "step w e = (r, w1)" by (cases "step w e")
  from step_keeps [OF Cons.prems, of e] s have k: "instance_ok w1"
    "\<forall>a. cls_instance w = Some a \<longrightarrow> cls_instance w1 = Some a"
    "cls_initialized w \<longrightarrow> cls_initialized w1" by auto
  from Cons.IH [OF k(1)] k(2,3) show ?case
    by (auto simp: s split: prod.splits)
qed

lemma run_returned:
  assumes "instance_ok w" and "Inr a \<in> set (fst (run w es))"
  shows "cls_initialized (snd (run w es)) \<and> cls_instance (snd (run w es)) = Some a"
  using assms
proof (induction es arbitrary: w)
  case Nil
  then show ?case by simp
next
  case (Cons e es)
  obtain r w1 where s: "step w e = (r, w1)" by (cases "step w e")
  obtain rs w2 where r: "run w1 es = (rs, w2)" by (cases "run w1 es")
  from step_keeps [OF Cons.prems(1), of e] s have k: "instance_ok w1"
    and ret: "\<forall>a. r = Some (Inr a) \<longrightarrow> cls_initialized w1 \<and> cls_instance w1 = Some a" by auto
  show ?case
  proof (cases "r = Some (Inr a)")
    case True
    with ret have "cls_initialized w1" "cls_instance w1 = Some a" by auto
    with run_keeps [OF k, of es] show ?thesis by (simp add: s r)
  next
    case False
    with Cons.prems(2) have "Inr a \<in> set rs" by (auto simp: s r split: option.splits)
    with Cons.IH [OF k] show ?thesis by (simp add: s r)
  qed
qed

section \<open>Facts about sections and copies\<close>

lemma represents_agree:
  assumes A: "\<And>a d. heap_lookup h a = Some (PDict d) \<Longrightarrow> heap_lookup h' a = Some (PDict d)"
    and B: "\<And>a vs. heap_lookup h a = Some (PList vs) \<Longrightarrow> heap_lookup h' a = Some (PList vs)"
  shows "represents h v y \<Longrightarrow> represents h' v y"
    and "represents_list h vs ys \<Longrightarrow> represents_list h' vs ys"
    and "represents_items h items kvs \<Longrightarrow> represents_items h' items kvs"
  using A B
proof (induction h v y and h vs ys and h items kvs rule: represents_represents_list_represents_items.induct)
  case (6 h v ys)
  from 6(2) obtain a vs where v: "v = PRef a" and a: "heap_lookup h a = Some (PList vs)"
    and r: "represents_list h vs ys"
    by (auto split: pyval.splits option.splits pyobj.splits)
  from 6(1) [OF v a refl r 6(3) 6(4)] 6(4) [OF a] show ?case by (simp add: v)
next
  case (7 h v kvs)
  from 7(2) obtain a items where v: "v = PRef a" and a: "heap_lookup h a = Some (PDict items)"
    and r: "represents_items h items kvs"
    by (auto split: pyval.splits option.splits pyobj.splits)
  from 7(1) [OF v a refl r 7(3) 7(4)] 7(3) [OF a] show ?case by (simp add: v)
qed (auto split: list.splits)

lemma represents_items_keys:
  "represents_items h items kvs \<Longrightarrow> map fst items = map fst kvs"
proof (induction kvs arbitrary: items)
  case Nil
  then show ?case by simp
next
  case (Cons kv kvs)
  then show ?case by (cases items) auto
qed

lemma dict_entry_append:
  "dict_entry h v k = Some v' \<Longrightarrow> dict_entry (h @ ext) v k = Some v'"
  by (auto simp: dict_entry_def heap_lookup_def nth_append
      split: pyval.splits option.splits pyobj.splits if_splits)

lemma navigate_append:
  "navigate h v ks = Some v' \<Longrightarrow> navigate (h @ ext) v ks = Some v'"
proof (induction ks arbitrary: v)
  case Nil
  then show ?case by simp
next
  case (Cons k ks)
  from Cons.prems obtain v1 where d: "dict_entry h v k = Some v1"
    and n: "navigate h v1 ks = Some v'"
    by (auto split: option.splits)
  from dict_entry_append [OF d, of ext] Cons.IH [OF n] show ?case by simp
qed

lemma navigate_extend:
  assumes "represents h v y"
  shows "navigate (h @ ext) v ks = navigate h v ks"
proof (cases "navigate h v ks")
  case None
  from navigate_ypath [OF assms, of ks] None have "ypath y ks = None"
    by (cases "ypath y ks") auto
  with navigate_ypath [OF represents_mono(1) [OF assms, of ext], of ks] None
  show ?thesis by simp
next
  case (Some v')
  from navigate_append [OF Some, of ext] Some show ?thesis by simp
qed

lemma get_section_eval:
  assumes "attrs w self = Some l" and "config l = PRef r"
    and "heap_lookup (heap w) r = Some (PDict items)"
  shows "get_section w self n =
     (case map_of items n of
        None \<Rightarrow> (Inl (MissingConfigError (missing_section_msg n)), w)
      | Some v \<Rightarrow> copy w v)"
proof (cases "map_of items n")
  case None
  then have "n \<notin> set (map fst items)" by (simp add: map_of_eq_None_iff)
  with assms None show ?thesis by (simp add: get_section_def py_in_def)
next
  case (Some v)
  then have "n \<in> set (map fst items)"
    by (metis map_of_eq_None_iff option.distinct(1) set_map)
  with assms Some show ?thesis by (simp add: get_section_def py_in_def getitem_def)
qed

lemma returned_object_copy:
  "returned_object (copy w v) =
     (case v of
        PRef a \<Rightarrow>
          (case heap_lookup (heap w) a of
             Some (PDict d) \<Rightarrow> Inr (Some (PDict d))
           | Some (PList vs) \<Rightarrow> Inr (Some (PList vs))
           | _ \<Rightarrow> Inl AttributeError)
      | _ \<Rightarrow> Inl AttributeError)"
  by (auto simp: returned_object_def copy_def heap_lookup_def
      split: pyval.splits option.splits pyobj.splits)

lemma represents_root_dict:
  assumes "represents h v (YMap secs)"
  obtains r items where "v = PRef r" and "heap_lookup h r = Some (PDict items)"
    and "represents_items h items secs"
  using assms by (auto split: pyval.splits option.splits pyobj.splits)

lemma represents_ref_append:
  assumes "represents h (PRef a) y"
  shows "heap_lookup (h @ ext) a = heap_lookup h a"
proof -
  from assms obtain obj where "heap_lookup h a = Some obj"
    by (cases y) (auto split: option.splits)
  with heap_lookup_append [OF this, of ext] show ?thesis by simp
qed

lemma returned_object_section_extend:
  assumes a: "attrs w self = Some l" and r: "represents (heap w) (config l) (YMap secs)"
    and a2: "attrs w2 self = Some l" and h2: "heap w2 = heap w @ ext"
  shows "returned_object (get_section w2 self n) = returned_object (get_section w self n)"
proof -
  from r obtain rt items where c: "config l = PRef rt"
    and lk: "heap_lookup (heap w) rt = Some (PDict items)"
    and ri: "represents_items (heap w) items secs"
    by (rule represents_root_dict)
  have lk2: "heap_lookup (heap w2) rt = Some (PDict items)"
    unfolding h2 using lk by (rule heap_lookup_append)
  show ?thesis
  proof (cases "map_of items n")
    case None
    then show ?thesis
      by (simp add: get_section_eval [OF a c lk] get_section_eval [OF a2 c lk2]
          returned_object_def)
  next
    case (Some v)
    have "map_of secs n \<noteq> None"
    proof
      assume "map_of secs n = None"
      with represents_items_map_of [OF ri, of n] Some show False by simp
    qed
    then obtain y where y: "map_of secs n = Some y" by blast
    with represents_items_map_of [OF ri, of n] Some have rv: "represents (heap w) v y" by simp
    have "returned_object (copy w2 v) = returned_object (copy w v)"
    proof (cases v)
      case (PRef x)
      from rv have "heap_lookup (heap w @ ext) x = heap_lookup (heap w) x"
        unfolding PRef by (rule represents_ref_append)
      then show ?thesis by (simp add: returned_object_copy PRef h2)
    qed (simp_all add: returned_object_copy)
    then show ?thesis
      by (simp add: get_section_eval [OF a c lk] get_section_eval [OF a2 c lk2] Some)
  qed
qed

lemma get_extend:
  assumes a: "attrs w self = Some l" and r: "represents (heap w) (config l) y"
    and a2: "attrs w2 self = Some l" and h2: "heap w2 = heap w @ ext"
    and e2: "environ w2 = environ w" and i2: "int_of_str w2 = int_of_str w"
    and f2: "float_of_str w2 = float_of_str w" and u2: "str_upper w2 = str_upper w"
  shows "get w2 self key dflt req = get w self key dflt req"
proof (cases "environ w (env_key w key)")
  case None
  have k: "env_key w2 key = env_key w key" by (simp add: env_key_def u2)
  with None e2 have "environ w2 (env_key w2 key) = None" by simp
  from get_unset [OF this a2] get_unset [OF None a] navigate_extend [OF r, of ext]
  show ?thesis by (simp add: h2)
next
  case (Some s)
  have k: "env_key w2 key = env_key w key" by (simp add: env_key_def u2)
  have "convert_type w2 s = convert_type w s"
    unfolding convert_type_def i2 f2 ..
  with Some show ?thesis by (simp add: get_def e2 k)
qed

lemma copy_scalar:
  assumes "represents (heap w) v y" and "is_scalar y"
  shows "copy w v = (Inl AttributeError, w)"
  using assms by (cases y) (simp_all add: copy_def)

lemma copy_seq:
  assumes "represents (heap w) v (YSeq ys)"
  shows "\<exists>vs. copy w v = (Inr (PRef (length (heap w))), w\<lparr>heap := heap w @ [PList vs]\<rparr>)
           \<and> represents_list (heap w) vs ys"
  using assms by (auto simp: copy_def split: pyval.splits option.splits pyobj.splits)

lemma copy_map:
  assumes "represents (heap w) v (YMap kvs)"
  shows "\<exists>d. copy w v = (Inr (PRef (length (heap w))), w\<lparr>heap := heap w @ [PDict d]\<rparr>)
           \<and> represents_items (heap w) d kvs"
  using assms by (auto simp: copy_def split: pyval.splits option.splits pyobj.splits)

lemma get_section_present:
  assumes a: "attrs w self = Some l" and r: "represents (heap w) (config l) (YMap secs)"
    and m: "map_of secs n = Some y"
  shows "\<exists>v. get_section w self n = copy w v \<and> represents (heap w) v y"
proof -
  from r obtain rt items where c: "config l = PRef rt"
    and lk: "heap_lookup (heap w) rt = Some (PDict items)"
    and ri: "represents_items (heap w) items secs"
    by (rule represents_root_dict)
  from represents_items_map_of [OF ri, of n] m obtain v
    where "map_of items n = Some v" and "represents (heap w) v y" by auto
  with get_section_eval [OF a c lk, of n] show ?thesis by auto
qed

lemma get_section_absent:
  assumes a: "attrs w self = Some l" and r: "represents (heap w) (config l) (YMap secs)"
    and m: "n \<notin> set (map fst secs)"
  shows "get_section w self n = (Inl (MissingConfigError (missing_section_msg n)), w)"
proof -
  from r obtain rt items where c: "config l = PRef rt"
    and lk: "heap_lookup (heap w) rt = Some (PDict items)"
    and ri: "represents_items (heap w) items secs"
    by (rule represents_root_dict)
  from m represents_items_keys [OF ri] have "map_of items n = None"
    by (simp add: map_of_eq_None_iff del: set_map) (metis set_map)
  with get_section_eval [OF a c lk, of n] show ?thesis by simp
qed

section \<open>Facts about reloading\<close>

lemma reload_shape:
  assumes a: "attrs w self = Some l"
  shows "\<exists>b. attrs (load_env_loop w self l (env_paths (project_root l))) self
               = Some (l\<lparr>env_loaded := b\<rparr>)
     \<and> reload w self =
        (case files w (config_path l) of
           None \<Rightarrow> (Some (ConfigurationError (not_found_msg (config_path l))),
                    load_env_loop w self l (env_paths (project_root l)))
         | Some f \<Rightarrow>
            (case yaml_view f of
               RaisesYAMLError e \<Rightarrow>
                 (Some (ConfigurationError (invalid_yaml_msg (config_path l) e)),
                  load_env_loop w self l (env_paths (project_root l)))
             | RaisesOther e \<Rightarrow>
                 (Some (ConfigurationError (load_failed_msg (config_path l) e)),
                  load_env_loop w self l (env_paths (project_root l)))
             | Parses y \<Rightarrow>
                 (None,
                  set_attrs
                    (load_env_loop w self l (env_paths (project_root l))
                       \<lparr>heap := snd (load_or_empty y
                                       (heap (load_env_loop w self l (env_paths (project_root l)))))\<rparr>)
                    self
                    (l\<lparr>env_loaded := b,
                       config := fst (load_or_empty y
                                       (heap (load_env_loop w self l (env_paths (project_root l)))))\<rparr>))))"
proof -
  define w1 where "w1 = load_env_loop w self l (env_paths (project_root l))"
  from load_env_loop_attrs [OF a, of "env_paths (project_root l)"]
  obtain b where a1: "attrs w1 self = Some (l\<lparr>env_loaded := b\<rparr>)" unfolding w1_def by blast
  have r: "reload w self = load_config w1 self"
    by (simp add: reload_def load_env_attrs [OF a] w1_def)
  have f1: "files w1 = files w" by (simp add: w1_def)
  have "load_config w1 self =
        (case files w (config_path l) of
           None \<Rightarrow> (Some (ConfigurationError (not_found_msg (config_path l))), w1)
         | Some f \<Rightarrow>
            (case yaml_view f of
               RaisesYAMLError e \<Rightarrow>
                 (Some (ConfigurationError (invalid_yaml_msg (config_path l) e)), w1)
             | RaisesOther e \<Rightarrow>
                 (Some (ConfigurationError (load_failed_msg (config_path l) e)), w1)
             | Parses y \<Rightarrow>
                 (None,
                  set_attrs (w1\<lparr>heap := snd (load_or_empty y (heap w1))\<rparr>) self
                    (l\<lparr>env_loaded := b, config := fst (load_or_empty y (heap w1))\<rparr>))))"
    by (simp add: load_config_def a1 f1 split: option.splits yaml_view.splits prod.splits)
  with a1 r show ?thesis unfolding w1_def by auto
qed


lemma represents_set_loader:
  assumes "heap_lookup h self = Some (PLoader x)"
  shows "represents h v y \<Longrightarrow> represents (h[self := PLoader x']) v y"
proof (rule represents_agree(1))
  fix a d
  assume "heap_lookup h a = Some (PDict d)"
  with assms show "heap_lookup (h[self := PLoader x']) a = Some (PDict d)"
    by (cases "a = self") (auto simp: heap_lookup_def split: if_splits)
next
  fix a vs
  assume "heap_lookup h a = Some (PList vs)"
  with assms show "heap_lookup (h[self := PLoader x']) a = Some (PList vs)"
    by (cases "a = self") (auto simp: heap_lookup_def split: if_splits)
qed

lemma represents_frame:
  assumes "length h \<le> length h'"
    and "\<And>a. a < length h \<Longrightarrow> a \<noteq> self \<Longrightarrow> h' ! a = h ! a"
    and "heap_lookup h self = Some (PLoader x)"
  shows "represents h v y \<Longrightarrow> represents h' v y"
proof (rule represents_agree(1))
  fix a d
  assume "heap_lookup h a = Some (PDict d)"
  with assms show "heap_lookup h' a = Some (PDict d)"
    by (cases "a = self") (auto simp: heap_lookup_def split: if_splits)
next
  fix a vs
  assume "heap_lookup h a = Some (PList vs)"
  with assms show "heap_lookup h' a = Some (PList vs)"
    by (cases "a = self") (auto simp: heap_lookup_def split: if_splits)
qed

lemma attrs_loader:
  "attrs w self = Some l \<Longrightarrow> heap_lookup (heap w) self = Some (PLoader (Some l))"
  by (auto simp: attrs_def split: option.splits pyobj.splits)

lemma reload_frame:
  assumes a: "attrs w self = Some l"
  shows "environ (snd (reload w self)) = dotenv_applied (project_root l) w"
    and "logged (snd (reload w self)) = logged w"
    and "printed (snd (reload w self)) = printed w"
    and "cls_instance (snd (reload w self)) = cls_instance w"
    and "cls_initialized (snd (reload w self)) = cls_initialized w"
    and "files (snd (reload w self)) = files w"
    and "int_of_str (snd (reload w self)) = int_of_str w"
    and "float_of_str (snd (reload w self)) = float_of_str w"
    and "str_upper (snd (reload w self)) = str_upper w"
    and "length (heap w) \<le> length (heap (snd (reload w self)))"
    and "\<And>a. a < length (heap w) \<Longrightarrow> a \<noteq> self
            \<Longrightarrow> heap (snd (reload w self)) ! a = heap w ! a"
proof -
  define w1 where "w1 = load_env_loop w self l (env_paths (project_root l))"
  from reload_shape [OF a] obtain b where
    r: "reload w self =
        (case files w (config_path l) of
           None \<Rightarrow> (Some (ConfigurationError (not_found_msg (config_path l))), w1)
         | Some f \<Rightarrow>
            (case yaml_view f of
               RaisesYAMLError e \<Rightarrow>
                 (Some (ConfigurationError (invalid_yaml_msg (config_path l) e)), w1)
             | RaisesOther e \<Rightarrow>
                 (Some (ConfigurationError (load_failed_msg (config_path l) e)), w1)
             | Parses y \<Rightarrow>
                 (None,
                  set_attrs (w1\<lparr>heap := snd (load_or_empty y (heap w1))\<rparr>) self
                    (l\<lparr>env_loaded := b, config := fst (load_or_empty y (heap w1))\<rparr>))))"
    unfolding w1_def by blast
  have e1: "environ w1 = dotenv_applied (project_root l) w"
    by (simp add: w1_def load_env_loop_environ)
  have o1: "logged w1 = logged w" "printed w1 = printed w" "cls_instance w1 = cls_instance w"
    "cls_initialized w1 = cls_initialized w" "files w1 = files w" "int_of_str w1 = int_of_str w"
    "float_of_str w1 = float_of_str w" "str_upper w1 = str_upper w"
    "length (heap w1) = length (heap w)"
    by (simp_all add: w1_def)
  have h1: "\<And>a. a \<noteq> self \<Longrightarrow> heap w1 ! a = heap w ! a"
    by (simp add: w1_def load_env_loop_heap)
  have "snd (reload w self) = w1
    \<or> (\<exists>y. snd (reload w self)
         = set_attrs (w1\<lparr>heap := snd (load_or_empty y (heap w1))\<rparr>) self
                    (l\<lparr>env_loaded := b, config := fst (load_or_empty y (heap w1))\<rparr>))"
  proof (cases "files w (config_path l)")
    case None
    then show ?thesis by (simp add: r)
  next
    case (Some f)
    then show ?thesis by (cases "yaml_view f") (auto simp: r)
  qed
  then consider (same) "snd (reload w self) = w1"
    | (new) y where "snd (reload w self)
         = set_attrs (w1\<lparr>heap := snd (load_or_empty y (heap w1))\<rparr>) self
                    (l\<lparr>env_loaded := b, config := fst (load_or_empty y (heap w1))\<rparr>)"
    by blast
  then have all: "environ (snd (reload w self)) = dotenv_applied (project_root l) w
    \<and> logged (snd (reload w self)) = logged w
    \<and> printed (snd (reload w self)) = printed w
    \<and> cls_instance (snd (reload w self)) = cls_instance w
    \<and> cls_initialized (snd (reload w self)) = cls_initialized w
    \<and> files (snd (reload w self)) = files w
    \<and> int_of_str (snd (reload w self)) = int_of_str w
    \<and> float_of_str (snd (reload w self)) = float_of_str w
    \<and> str_upper (snd (reload w self)) = str_upper w
    \<and> length (heap w) \<le> length (heap (snd (reload w self)))
    \<and> (\<forall>a. a < length (heap w) \<longrightarrow> a \<noteq> self
            \<longrightarrow> heap (snd (reload w self)) ! a = heap w ! a)"
  proof cases
    case same
    then show ?thesis using e1 o1 h1 by simp
  next
    case (new y)
    from load_or_empty_extends [of y "heap w1"] obtain ext where
      x: "snd (load_or_empty y (heap w1)) = heap w1 @ ext" by blast
    show ?thesis using e1 o1 h1
      by (simp add: new x set_attrs_def nth_append)
  qed
  from all show "environ (snd (reload w self)) = dotenv_applied (project_root l) w"
    and "logged (snd (reload w self)) = logged w"
    and "printed (snd (reload w self)) = printed w"
    and "cls_instance (snd (reload w self)) = cls_instance w"
    and "cls_initialized (snd (reload w self)) = cls_initialized w"
    and "files (snd (reload w self)) = files w"
    and "int_of_str (snd (reload w self)) = int_of_str w"
    and "float_of_str (snd (reload w self)) = float_of_str w"
    and "str_upper (snd (reload w self)) = str_upper w"
    and "length (heap w) \<le> length (heap (snd (reload w self)))"
    and "\<And>a. a < length (heap w) \<Longrightarrow> a \<noteq> self
            \<Longrightarrow> heap (snd (reload w self)) ! a = heap w ! a"
    by simp_all
qed

lemma reload_fails:
  assumes a: "attrs w self = Some l"
    and f: "files w (config_path l) = None
            \<or> (\<exists>f e. files w (config_path l) = Some f
                  \<and> (yaml_view f = RaisesYAMLError e \<or> yaml_view f = RaisesOther e))"
  shows "(\<exists>m. fst (reload w self) = Some (ConfigurationError m))
       \<and> (\<exists>b. attrs (snd (reload w self)) self = Some (l\<lparr>env_loaded := b\<rparr>))"
proof -
  from reload_shape [OF a] obtain b where
    a1: "attrs (load_env_loop w self l (env_paths (project_root l))) self
               = Some (l\<lparr>env_loaded := b\<rparr>)"
    and r: "reload w self =
        (case files w (config_path l) of
           None \<Rightarrow> (Some (ConfigurationError (not_found_msg (config_path l))),
                    load_env_loop w self l (env_paths (project_root l)))
         | Some f \<Rightarrow>
            (case yaml_view f of
               RaisesYAMLError e \<Rightarrow>
                 (Some (ConfigurationError (invalid_yaml_msg (config_path l) e)),
                  load_env_loop w self l (env_paths (project_root l)))
             | RaisesOther e \<Rightarrow>
                 (Some (ConfigurationError (load_failed_msg (config_path l) e)),
                  load_env_loop w self l (env_paths (project_root l)))
             | Parses y \<Rightarrow>
                 (None,
                  set_attrs
                    (load_env_loop w self l (env_paths (project_root l))
                       \<lparr>heap := snd (load_or_empty y
                                       (heap (load_env_loop w self l (env_paths (project_root l)))))\<rparr>)
                    self
                    (l\<lparr>env_loaded := b,
                       config := fst (load_or_empty y
                                       (heap (load_env_loop w self l (env_paths (project_root l)))))\<rparr>))))"
    by blast
  from f a1 show ?thesis by (auto simp: r)
qed

lemma reload_parses:
  assumes a: "attrs w self = Some l"
    and f: "files w (config_path l) = Some f" and y: "yaml_view f = Parses y"
  shows "fst (reload w self) = None
       \<and> (\<exists>l'. attrs (snd (reload w self)) self = Some l'
              \<and> project_root l' = project_root l \<and> config_path l' = config_path l
              \<and> represents (heap (snd (reload w self))) (config l')
                   (if truthy y then y else YMap []))"
proof -
  define w1 where "w1 = load_env_loop w self l (env_paths (project_root l))"
  from reload_shape [OF a] f y obtain b where
    a1: "attrs w1 self = Some (l\<lparr>env_loaded := b\<rparr>)"
    and r: "reload w self =
                 (None,
                  set_attrs (w1\<lparr>heap := snd (load_or_empty y (heap w1))\<rparr>) self
                    (l\<lparr>env_loaded := b, config := fst (load_or_empty y (heap w1))\<rparr>))"
    unfolding w1_def by auto
  define l' where "l' = l\<lparr>env_loaded := b, config := fst (load_or_empty y (heap w1))\<rparr>"
  from load_or_empty_extends [of y "heap w1"] obtain ext where
    x: "snd (load_or_empty y (heap w1)) = heap w1 @ ext" by blast
  from attrs_loader [OF a1] have lk: "heap_lookup (heap w1) self = Some (PLoader (Some (l\<lparr>env_loaded := b\<rparr>)))" .
  then have s: "self < length (heap w1)" by (auto simp: heap_lookup_def split: if_splits)
  have lk2: "heap_lookup (heap w1 @ ext) self = Some (PLoader (Some (l\<lparr>env_loaded := b\<rparr>)))"
    using lk by (rule heap_lookup_append)
  have h: "heap (snd (reload w self)) = (heap w1 @ ext)[self := PLoader (Some l')]"
    by (simp add: r set_attrs_def x l'_def)
  have at: "attrs (snd (reload w self)) self = Some l'"
    using s by (simp add: attrs_def heap_lookup_def h)
  from load_or_empty_represents [of y "heap w1"]
  have "represents (heap w1 @ ext) (config l') (if truthy y then y else YMap [])"
    by (simp add: x l'_def)
  from represents_set_loader [OF lk2 this]
  have "represents (heap (snd (reload w self))) (config l') (if truthy y then y else YMap [])"
    by (simp add: h)
  with at show ?thesis by (auto simp: r l'_def)
qed


lemma reload_get:
  assumes a: "attrs w self = Some l"
    and f: "files w (config_path l) = Some f" and y: "yaml_view f = Parses y"
  shows "(\<forall>s. dotenv_applied (project_root l) w (env_key w key) = Some s
            \<longrightarrow> get (snd (reload w self)) self key dflt req = Inr (convert_type w s))
       \<and> (dotenv_applied (project_root l) w (env_key w key) = None
            \<longrightarrow> (case ypath (if truthy y then y else YMap []) (segments key) of
                   Some y' \<Rightarrow>
                     (\<exists>v. get (snd (reload w self)) self key dflt req = Inr v
                          \<and> represents (heap (snd (reload w self))) v y')
                 | None \<Rightarrow>
                     get (snd (reload w self)) self key dflt req
                       = (if req then Inl (MissingConfigError (missing_key_msg key))
                          else Inr dflt)))"
proof -
  define w' where "w' = snd (reload w self)"
  note fr = reload_frame [OF a, folded w'_def]
  from reload_parses [OF a f y] obtain l' where at: "attrs w' self = Some l'"
    and rp: "represents (heap w') (config l') (if truthy y then y else YMap [])"
    unfolding w'_def by blast
  have k: "env_key w' key = env_key w key" by (simp add: env_key_def fr(9))
  have e: "environ w' (env_key w' key) = dotenv_applied (project_root l) w (env_key w key)"
    by (simp add: k fr(1))
  have c: "convert_type w' s = convert_type w s" for s
    unfolding convert_type_def fr(7) fr(8) ..
  have 1: "\<forall>s. dotenv_applied (project_root l) w (env_key w key) = Some s
            \<longrightarrow> get w' self key dflt req = Inr (convert_type w s)"
    by (simp add: get_def e c)
  have 2: "dotenv_applied (project_root l) w (env_key w key) = None
            \<longrightarrow> (case ypath (if truthy y then y else YMap []) (segments key) of
                   Some y' \<Rightarrow>
                     (\<exists>v. get w' self key dflt req = Inr v \<and> represents (heap w') v y')
                 | None \<Rightarrow>
                     get w' self key dflt req
                       = (if req then Inl (MissingConfigError (missing_key_msg key))
                          else Inr dflt))"
  proof
    assume "dotenv_applied (project_root l) w (env_key w key) = None"
    with e have n: "environ w' (env_key w' key) = None" by simp
    note g = get_unset [OF n at, of dflt req]
    note p = navigate_ypath [OF rp, of "segments key"]
    show "case ypath (if truthy y then y else YMap []) (segments key) of
                   Some y' \<Rightarrow>
                     (\<exists>v. get w' self key dflt req = Inr v \<and> represents (heap w') v y')
                 | None \<Rightarrow>
                     get w' self key dflt req
                       = (if req then Inl (MissingConfigError (missing_key_msg key))
                          else Inr dflt)"
    proof (cases "ypath (if truthy y then y else YMap []) (segments key)")
      case None
      with p have "navigate (heap w') (config l') (segments key) = None" by simp
      with g None show ?thesis by simp
    next
      case (Some y')
      with p obtain v where "navigate (heap w') (config l') (segments key) = Some v"
        and "represents (heap w') v y'" by auto
      with g Some show ?thesis by simp
    qed
  qed
  from 1 2 show ?thesis unfolding w'_def by blast
qed

section \<open>The example process, evaluated\<close>

lemmas demo_defs = demo_world_def construct_def new_def init_def demo_start_def load_env_def
  attrs_def heap_lookup_def set_attrs_def env_paths_def load_config_def default_config_path_def
  load_or_empty_def demo_doc_def demo_sections_def validate_required_def openai_api_key_def Let_def

lemma demo_heap:
  "heap demo_world =
     [PLoader (Some demo_loader),
      PDict [],
      PDict [(''debug'', PStr ''true''), (''name'', PNone)],
      PList [PStr ''.pdf''],
      PDict [(''chunk_size'', PInt 500), (''allowed_extensions'', PRef 3)],
      PDict [(''seed'', PInt 1)],
      PDict [(''model'', PStr ''gpt-3.5-turbo''), (''options'', PRef 5)],
      PList [PStr ''exam''],
      PDict [(''app'', PRef 2), (''document_processing'', PRef 4), (''llm'', PRef 6),
             (''retries'', PInt 3), (''tags'', PRef 7)]]"
  by (simp add: demo_defs demo_loader_def)

lemma demo_environ: "environ demo_world = [''DOCUMENT_PROCESSING_CHUNK_SIZE'' \<mapsto> ''800'']"
  by (simp add: demo_defs)

lemma demo_int_of_str: "int_of_str demo_world = demo_int"
  by (simp add: demo_defs)

lemma demo_float_of_str: "float_of_str demo_world = (\<lambda>s. None)"
  by (simp add: demo_defs)

lemma demo_attrs: "attrs demo_world 0 = Some demo_loader"
  by (simp add: attrs_def heap_lookup_def demo_heap)

lemma demo_config: "config demo_loader = PRef 8"
  by (simp add: demo_loader_def)

lemma demo_start_ok: "instance_ok demo_start" "\<not> cls_initialized demo_start"
  by (simp_all add: instance_ok_def demo_start_def)

lemma demo_start_paths:
  "document_path demo_start None = ''/app/configs/config.yaml''"
  "document_path demo_start (Some ''/nowhere.yaml'') = ''/nowhere.yaml''"
  "document_path demo_start (Some ''/app/configs/broken.yaml'') = ''/app/configs/broken.yaml''"
  by (simp_all add: document_path_def demo_start_def)

lemma demo_start_files:
  "files demo_start ''/nowhere.yaml'' = None"
  "files demo_start ''/app/configs/config.yaml''
     = Some \<lparr>dotenv_view = [], yaml_view = Parses demo_doc\<rparr>"
  "files demo_start ''/app/configs/broken.yaml''
     = Some \<lparr>dotenv_view = [], yaml_view = RaisesYAMLError ''mapping values are not allowed here''\<rparr>"
  by (simp_all add: demo_start_def)

lemma demo_start_key:
  "dotenv_applied (module_root demo_start) demo_start ''OPENAI_API_KEY'' = None"
  by (simp add: dotenv_applied_def demo_start_def)

lemma demo_start_io:
  "logger_importable demo_start = False" "printed demo_start = []" "logged demo_start = []"
  by (simp_all add: demo_start_def)

lemma demo_run: "fst (run demo_start demo_events)
   = [Inl (ConfigurationError (not_found_msg ''/nowhere.yaml'')), Inr 0, Inr 0, Inr 0]"
  by (simp add: demo_events_def construct_def new_def init_def demo_start_def load_env_def
  attrs_def heap_lookup_def set_attrs_def env_paths_def load_config_def default_config_path_def
  load_or_empty_def demo_doc_def demo_sections_def validate_required_def openai_api_key_def Let_def)

lemma demo_str_upper: "str_upper demo_world = upper"
  by (simp add: demo_defs)

lemma demo_world_facts:
  "cls_initialized demo_world" "cls_instance demo_world = Some 0"
  "files demo_world = files demo_start" "path_str demo_world = (\<lambda>p. p)"
  "module_root demo_world = ''/app''"
  by (simp_all add: demo_defs)

lemmas env_key_eval = env_key_def demo_str_upper upper_def upper_char_def replace_char_def

lemmas nav_eval = resolves_iff segments_def demo_heap dict_entry_def heap_lookup_def

lemma demo_chunk_size_override:
  "environ demo_world (env_key demo_world ''document_processing.chunk_size'') = Some ''800''"
  by (simp add: env_key_eval demo_environ)

lemma demo_chunk_size_located:
  "resolves (heap demo_world) (config demo_loader)
     (segments ''document_processing.chunk_size'') (PInt 500)"
  by (simp add: nav_eval demo_config)

lemma demo_coerce_800: "coerce_spec demo_world ''800'' = PInt 800"
  by (simp add: coerce_spec_def same_ignoring_case_def lower_def lower_char_def
        demo_int_of_str demo_int_def)

lemma demo_represents:
  "represents (heap demo_world) (config demo_loader) (YMap demo_sections)"
  by (simp add: demo_heap demo_config demo_sections_def heap_lookup_def)

lemmas section_eval = get_section_def demo_attrs demo_config py_in_def getitem_def copy_def
  heap_lookup_def demo_heap

lemma demo_section_tags:
  "fst (get_section demo_world 0 ''tags'') = Inr (PRef 9)"
  "heap (snd (get_section demo_world 0 ''tags'')) ! 9 = PList [PStr ''exam'']"
  by (simp_all add: section_eval)

lemma demo_section_llm:
  "demo_section = (Inr (PRef 9), demo_world\<lparr>heap := heap demo_world @ [PDict [(''model'', PStr ''gpt-3.5-turbo''), (''options'', PRef 5)]]\<rparr>)"
  by (simp add: demo_section_def section_eval)

lemma demo_nested_eval: "demo_nested = Inr (PRef 5)"
  by (simp add: demo_nested_def demo_section_llm getitem_def heap_lookup_def demo_heap)

lemma demo_mutated_heap:
  "heap demo_mutated = (heap demo_world @ [PDict [(''model'', PStr ''gpt-3.5-turbo''), (''options'', PRef 5)]])[5 := PDict [(''seed'', PInt 2)]]"
  by (simp add: demo_mutated_def demo_nested_eval demo_section_llm setitem_def heap_lookup_def demo_heap)

lemma demo_edited_facts:
  "attrs demo_edited 0 = Some demo_loader"
  "files demo_edited (config_path demo_loader)
     = Some \<lparr>dotenv_view = [], yaml_view = Parses demo_doc_edited\<rparr>"
  "dotenv_applied (project_root demo_loader) demo_edited = environ demo_world"
  "str_upper demo_edited = upper"
  "int_of_str demo_edited = demo_int"
  "printed demo_edited = printed demo_world"
  "heap demo_edited = heap demo_world"
  by (simp_all add: demo_edited_def attrs_def heap_lookup_def demo_heap demo_loader_def
      dotenv_applied_def demo_world_facts demo_start_def demo_str_upper demo_int_of_str)

lemma demo_deleted_facts:
  "attrs demo_deleted 0 = Some demo_loader"
  "files demo_deleted (config_path demo_loader) = None"
  by (simp_all add: demo_deleted_def attrs_def heap_lookup_def demo_heap demo_loader_def)

lemma demo_edited_view:
  "yaml_view \<lparr>dotenv_view = [], yaml_view = Parses demo_doc_edited\<rparr> = Parses demo_doc_edited"
  by simp

lemma demo_edited_keys:
  "env_key demo_edited ''retries'' = ''RETRIES''"
  "env_key demo_edited ''document_processing.chunk_size'' = ''DOCUMENT_PROCESSING_CHUNK_SIZE''"
  by (simp_all add: env_key_def demo_edited_facts upper_def upper_char_def replace_char_def)

section \<open>Lookup: overrides, document values, defaults and required keys\<close>

text \<open>
  C1. For every key, when the environment variable named by the upper-cased key with
  every dot replaced by an underscore is set, \<^verbatim>\<open>get(key, default, required)\<close> returns
  the value of that variable coerced in the fixed order of the specification (boolean
  true words, boolean false words, integer, float, the string itself; the first match
  wins), whatever the default, the required flag and the configuration document are: the
  override wins also when the key resolves in the document.
\<close>

theorem C1_override_wins:
  assumes "environ w (env_key w key) = Some s"
  shows "get w self key dflt required = Inr (coerce_spec w s)"
  using assms by (simp add: get_def convert_type_spec)

theorem C1_override_wins_witness:
  "environ demo_world (env_key demo_world ''document_processing.chunk_size'') = Some ''800''
   \<and> resolves (heap demo_world) (config demo_loader)
        (segments ''document_processing.chunk_size'') (PInt 500)
   \<and> get demo_world 0 ''document_processing.chunk_size'' (PInt 500) True = Inr (PInt 800)"
  using C1_override_wins [of demo_world "''document_processing.chunk_size''" "''800''" 0
      "PInt 500" True]
  by (simp add: demo_chunk_size_override demo_chunk_size_located demo_coerce_800)

text \<open>
  C2. For every key whose override variable is not set and whose navigation through the
  tree succeeds (every segment is found in a mapping), \<^verbatim>\<open>get(key)\<close> returns the value
  located in the document as it is, with no coercion: in the example the document string
  \<^verbatim>\<open>"true"\<close> comes back as that string, not as a boolean.
\<close>

theorem C2_document_value_unchanged:
  assumes "environ w (env_key w key) = None"
    and "attrs w self = Some l"
    and "resolves (heap w) (config l) (segments key) v"
  shows "get w self key dflt required = Inr v"
  using assms by (simp add: get_unset resolves_iff)

theorem C2_document_value_unchanged_witness:
  "environ demo_world (env_key demo_world ''app.debug'') = None
   \<and> attrs demo_world 0 = Some demo_loader
   \<and> resolves (heap demo_world) (config demo_loader) (segments ''app.debug'') (PStr ''true'')
   \<and> get demo_world 0 ''app.debug'' PNone False = Inr (PStr ''true'')"
proof -
  have e: "environ demo_world (env_key demo_world ''app.debug'') = None"
    by (simp add: env_key_eval demo_environ)
  have r: "resolves (heap demo_world) (config demo_loader) (segments ''app.debug'') (PStr ''true'')"
    by (simp add: nav_eval demo_config)
  from C2_document_value_unchanged [OF e demo_attrs r, of PNone False] e r demo_attrs
  show ?thesis by simp
qed

text \<open>
  C7. For every default \<open>D\<close> and every key whose override variable is unset and whose
  navigation fails, \<^verbatim>\<open>get(key, default=D)\<close> with \<^verbatim>\<open>required\<close> false returns exactly
  \<open>D\<close>; the default is not coerced.
\<close>

theorem C7_default_returned:
  assumes "environ w (env_key w key) = None"
    and "attrs w self = Some l"
    and "\<not> (\<exists>v. resolves (heap w) (config l) (segments key) v)"
  shows "get w self key D False = Inr D"
proof -
  from assms(3) have "navigate (heap w) (config l) (segments key) = None"
    by (cases "navigate (heap w) (config l) (segments key)") (auto simp: resolves_iff)
  with assms(1,2) show ?thesis by (simp add: get_unset)
qed

theorem C7_default_returned_witness:
  "environ demo_world (env_key demo_world ''llm.temperature'') = None
   \<and> attrs demo_world 0 = Some demo_loader
   \<and> \<not> (\<exists>v. resolves (heap demo_world) (config demo_loader) (segments ''llm.temperature'') v)
   \<and> get demo_world 0 ''llm.temperature'' (PStr ''yes'') False = Inr (PStr ''yes'')"
proof -
  have e: "environ demo_world (env_key demo_world ''llm.temperature'') = None"
    by (simp add: env_key_eval demo_environ)
  have r: "\<not> (\<exists>v. resolves (heap demo_world) (config demo_loader) (segments ''llm.temperature'') v)"
    by (simp add: nav_eval demo_config)
  from C7_default_returned [OF e demo_attrs r, of "PStr ''yes''"] e r demo_attrs
  show ?thesis by simp
qed

text \<open>
  C9. For every missing key (override variable unset, navigation failed) and every
  default \<open>D\<close>, \<^verbatim>\<open>get(key, default=D, required=True)\<close> raises \<^verbatim>\<open>MissingConfigError\<close>
  and does not return \<open>D\<close>: the required flag takes precedence over the default.
\<close>

theorem C9_required_beats_default:
  assumes "environ w (env_key w key) = None"
    and "attrs w self = Some l"
    and "\<not> (\<exists>v. resolves (heap w) (config l) (segments key) v)"
  shows "get w self key D True = Inl (MissingConfigError (missing_key_msg key))
         \<and> get w self key D True \<noteq> Inr D"
proof -
  from assms(3) have "navigate (heap w) (config l) (segments key) = None"
    by (cases "navigate (heap w) (config l) (segments key)") (auto simp: resolves_iff)
  with assms(1,2) show ?thesis by (simp add: get_unset)
qed

theorem C9_required_beats_default_witness:
  "environ demo_world (env_key demo_world ''llm.temperature'') = None
   \<and> attrs demo_world 0 = Some demo_loader
   \<and> \<not> (\<exists>v. resolves (heap demo_world) (config demo_loader) (segments ''llm.temperature'') v)
   \<and> get demo_world 0 ''llm.temperature'' (PInt 1) True
       = Inl (MissingConfigError (missing_key_msg ''llm.temperature''))
   \<and> get demo_world 0 ''llm.temperature'' (PInt 1) True \<noteq> Inr (PInt 1)"
proof -
  have e: "environ demo_world (env_key demo_world ''llm.temperature'') = None"
    by (simp add: env_key_eval demo_environ)
  have r: "\<not> (\<exists>v. resolves (heap demo_world) (config demo_loader) (segments ''llm.temperature'') v)"
    by (simp add: nav_eval demo_config)
  from C9_required_beats_default [OF e demo_attrs r, of "PInt 1"] e r demo_attrs
  show ?thesis by simp
qed

text \<open>
  C6, as the code has it. For every key whose override variable is unset and whose
  navigation fails, \<^verbatim>\<open>get(key, required=True)\<close> raises \<^verbatim>\<open>MissingConfigError\<close>; for
  every key whose override variable is unset and whose navigation succeeds it returns
  the located value, also when that value is null or empty; and for every key whose
  navigation succeeds it never raises, whether the override is set or not. With the
  override set the result is the coerced override, not the located value: in the example
  \<^verbatim>\<open>document_processing.chunk_size\<close> is 500 in the document and the call returns 800.
\<close>

theorem C6_required_lookup:
  assumes "attrs w self = Some l"
  shows "(environ w (env_key w key) = None
            \<and> \<not> (\<exists>v. resolves (heap w) (config l) (segments key) v)
          \<longrightarrow> get w self key dflt True = Inl (MissingConfigError (missing_key_msg key)))
       \<and> (\<forall>v. environ w (env_key w key) = None \<and> resolves (heap w) (config l) (segments key) v
          \<longrightarrow> get w self key dflt True = Inr v)
       \<and> (\<forall>v. resolves (heap w) (config l) (segments key) v
          \<longrightarrow> (\<exists>r. get w self key dflt True = Inr r))"
proof (intro conjI allI impI)
  assume a: "environ w (env_key w key) = None
     \<and> \<not> (\<exists>v. resolves (heap w) (config l) (segments key) v)"
  then have "navigate (heap w) (config l) (segments key) = None"
    by (cases "navigate (heap w) (config l) (segments key)") (auto simp: resolves_iff)
  with a assms show "get w self key dflt True = Inl (MissingConfigError (missing_key_msg key))"
    by (simp add: get_unset)
next
  fix v
  assume "environ w (env_key w key) = None \<and> resolves (heap w) (config l) (segments key) v"
  with assms show "get w self key dflt True = Inr v"
    by (simp add: get_unset resolves_iff)
next
  fix v
  assume r: "resolves (heap w) (config l) (segments key) v"
  show "\<exists>r. get w self key dflt True = Inr r"
  proof (cases "environ w (env_key w key)")
    case None
    with assms r show ?thesis by (simp add: get_unset resolves_iff)
  next
    case (Some s)
    then show ?thesis by (simp add: get_def)
  qed
qed

theorem C6_required_lookup_witness:
  "attrs demo_world 0 = Some demo_loader
   \<and> environ demo_world (env_key demo_world ''app.name'') = None
   \<and> resolves (heap demo_world) (config demo_loader) (segments ''app.name'') PNone
   \<and> get demo_world 0 ''app.name'' (PInt 1) True = Inr PNone
   \<and> environ demo_world (env_key demo_world ''app.port'') = None
   \<and> \<not> (\<exists>v. resolves (heap demo_world) (config demo_loader) (segments ''app.port'') v)
   \<and> get demo_world 0 ''app.port'' (PInt 1) True
       = Inl (MissingConfigError (missing_key_msg ''app.port''))
   \<and> (\<exists>r. get demo_world 0 ''document_processing.chunk_size'' (PInt 1) True = Inr r)"
proof -
  have e1: "environ demo_world (env_key demo_world ''app.name'') = None"
    by (simp add: env_key_eval demo_environ)
  have r1: "resolves (heap demo_world) (config demo_loader) (segments ''app.name'') PNone"
    by (simp add: nav_eval demo_config)
  have e2: "environ demo_world (env_key demo_world ''app.port'') = None"
    by (simp add: env_key_eval demo_environ)
  have r2: "\<not> (\<exists>v. resolves (heap demo_world) (config demo_loader) (segments ''app.port'') v)"
    by (simp add: nav_eval demo_config)
  note t = C6_required_lookup [OF demo_attrs]
  from t [of "''app.name''" "PInt 1"] e1 r1
  have g1: "get demo_world 0 ''app.name'' (PInt 1) True = Inr PNone" by blast
  from t [of "''app.port''" "PInt 1"] e2 r2
  have g2: "get demo_world 0 ''app.port'' (PInt 1) True
       = Inl (MissingConfigError (missing_key_msg ''app.port''))" by blast
  from t [of "''document_processing.chunk_size''" "PInt 1"] demo_chunk_size_located
  have g3: "\<exists>r. get demo_world 0 ''document_processing.chunk_size'' (PInt 1) True = Inr r"
    by blast
  from demo_attrs e1 r1 g1 e2 r2 g2 g3 show ?thesis by blast
qed

theorem C6_override_counterexample:
  "resolves (heap demo_world) (config demo_loader)
     (segments ''document_processing.chunk_size'') (PInt 500)
   \<and> get demo_world 0 ''document_processing.chunk_size'' PNone True = Inr (PInt 800)
   \<and> get demo_world 0 ''document_processing.chunk_size'' PNone True \<noteq> Inr (PInt 500)"
  by (simp add: demo_chunk_size_located get_def demo_chunk_size_override convert_type_spec
        demo_coerce_800)

section \<open>Construction: failures, the warning and the single instance\<close>

text \<open>
  What a construction call does while \<^verbatim>\<open>ConfigLoader._initialized\<close> is false.
\<close>

lemma construct_fresh:
  assumes "instance_ok w" and "\<not> cls_initialized w"
  shows "(files w (document_path w cpath) = None
            \<longrightarrow> fst (construct w cpath)
                  = Inl (ConfigurationError (not_found_msg (document_path w cpath))))
       \<and> (\<forall>f e. files w (document_path w cpath) = Some f \<and> yaml_view f = RaisesYAMLError e
            \<longrightarrow> fst (construct w cpath)
                  = Inl (ConfigurationError (invalid_yaml_msg (document_path w cpath) e)))
       \<and> (\<forall>f e. files w (document_path w cpath) = Some f \<and> yaml_view f = RaisesOther e
            \<longrightarrow> fst (construct w cpath)
                  = Inl (ConfigurationError (load_failed_msg (document_path w cpath) e)))
       \<and> (\<forall>f y. files w (document_path w cpath) = Some f \<and> yaml_view f = Parses y
            \<longrightarrow> (\<exists>a. fst (construct w cpath) = Inr a)
                \<and> cls_initialized (snd (construct w cpath))
                \<and> (dotenv_applied (module_root w) w ''OPENAI_API_KEY'' = None
                     \<or> dotenv_applied (module_root w) w ''OPENAI_API_KEY'' = Some []
                   \<longrightarrow> (if logger_importable w
                        then logged (snd (construct w cpath)) = logged w @ [api_key_warning]
                             \<and> printed (snd (construct w cpath)) = printed w
                        else printed (snd (construct w cpath))
                               = printed w @ [''WARNING: '' @ api_key_warning]
                             \<and> logged (snd (construct w cpath)) = logged w))
                \<and> (\<forall>k. dotenv_applied (module_root w) w ''OPENAI_API_KEY'' = Some k \<and> k \<noteq> []
                   \<longrightarrow> logged (snd (construct w cpath)) = logged w
                       \<and> printed (snd (construct w cpath)) = printed w))"
proof -
  from new_fresh [OF assms(1)] obtain self w0 where n: "new w = (self, w0)"
    and s: "self < length (heap w0)" and i0: "cls_initialized w0 = cls_initialized w"
    and f0: "files w0 = files w" and e0: "environ w0 = environ w"
    and m0: "module_root w0 = module_root w" and ps0: "path_str w0 = path_str w"
    and l0: "logged w0 = logged w" and p0: "printed w0 = printed w"
    and g0: "logger_importable w0 = logger_importable w"
    by blast
  from assms(2) i0 have ni: "\<not> cls_initialized w0" by simp
  define P where "P = document_path w cpath"
  from init_fresh [OF ni s, of cpath] obtain w2 b where
    i: "init w0 self cpath =
       (case load_config w2 self of
          (Some e, w3) \<Rightarrow> (Some e, w3)
        | (None, w3) \<Rightarrow> (None, (validate_required w3 self)\<lparr>cls_initialized := True\<rparr>))"
    and a2: "attrs w2 self =
         Some \<lparr>project_root = module_root w0, config_path = document_path w0 cpath,
               config = PRef (length (heap w0)), env_loaded = b\<rparr>"
    and f2: "files w2 = files w0" and e2: "environ w2 = dotenv_applied (module_root w0) w0"
    and l2: "logged w2 = logged w0" and p2: "printed w2 = printed w0"
    and g2: "logger_importable w2 = logger_importable w0"
    by blast
  define l where "l = \<lparr>project_root = module_root w0, config_path = document_path w0 cpath,
               config = PRef (length (heap w0)), env_loaded = b\<rparr>"
  have cp: "config_path l = P"
    by (simp add: l_def P_def document_path_cong [OF m0 ps0])
  have a2': "attrs w2 self = Some l" using a2 by (simp add: l_def)
  have fe: "files w2 P = files w P" using f2 f0 by simp
  have env: "environ w2 = dotenv_applied (module_root w) w"
    using e2 m0 dotenv_applied_cong [OF e0 f0] by simp
  have c: "construct w cpath =
       (case load_config w2 self of
          (Some e, w3) \<Rightarrow> (Inl e, w3)
        | (None, w3) \<Rightarrow> (Inr self, (validate_required w3 self)\<lparr>cls_initialized := True\<rparr>))"
    by (simp add: construct_def n i split: prod.splits option.splits)
  have 1: "files w P = None \<longrightarrow> fst (construct w cpath) = Inl (ConfigurationError (not_found_msg P))"
  proof
    assume "files w P = None"
    with fe cp have "files w2 (config_path l) = None" by simp
    from load_config_missing [OF a2' this] show
      "fst (construct w cpath) = Inl (ConfigurationError (not_found_msg P))"
      by (simp add: c cp)
  qed
  have 2: "\<forall>f e. files w P = Some f \<and> yaml_view f = RaisesYAMLError e
            \<longrightarrow> fst (construct w cpath) = Inl (ConfigurationError (invalid_yaml_msg P e))"
  proof (intro allI impI)
    fix f e
    assume h: "files w P = Some f \<and> yaml_view f = RaisesYAMLError e"
    with fe cp have "files w2 (config_path l) = Some f" by simp
    from load_config_bad_yaml [OF a2' this] h show
      "fst (construct w cpath) = Inl (ConfigurationError (invalid_yaml_msg P e))"
      by (simp add: c cp)
  qed
  have other: "\<forall>f e. files w P = Some f \<and> yaml_view f = RaisesOther e
            \<longrightarrow> fst (construct w cpath) = Inl (ConfigurationError (load_failed_msg P e))"
  proof (intro allI impI)
    fix f e
    assume h: "files w P = Some f \<and> yaml_view f = RaisesOther e"
    with fe cp have "files w2 (config_path l) = Some f" by simp
    from load_config_unreadable [OF a2' this] h show
      "fst (construct w cpath) = Inl (ConfigurationError (load_failed_msg P e))"
      by (simp add: c cp)
  qed
  have 3: "\<forall>f y. files w P = Some f \<and> yaml_view f = Parses y
            \<longrightarrow> (\<exists>a. fst (construct w cpath) = Inr a)
                \<and> cls_initialized (snd (construct w cpath))
                \<and> (dotenv_applied (module_root w) w ''OPENAI_API_KEY'' = None
                     \<or> dotenv_applied (module_root w) w ''OPENAI_API_KEY'' = Some []
                   \<longrightarrow> (if logger_importable w
                        then logged (snd (construct w cpath)) = logged w @ [api_key_warning]
                             \<and> printed (snd (construct w cpath)) = printed w
                        else printed (snd (construct w cpath))
                               = printed w @ [''WARNING: '' @ api_key_warning]
                             \<and> logged (snd (construct w cpath)) = logged w))
                \<and> (\<forall>k. dotenv_applied (module_root w) w ''OPENAI_API_KEY'' = Some k \<and> k \<noteq> []
                   \<longrightarrow> logged (snd (construct w cpath)) = logged w
                       \<and> printed (snd (construct w cpath)) = printed w)"
  proof (intro allI impI)
    fix f y
    assume h: "files w P = Some f \<and> yaml_view f = Parses y"
    with fe cp have "files w2 (config_path l) = Some f" by simp
    from load_config_parses [OF a2' this] h obtain w3 where
      lc: "load_config w2 self = (None, w3)"
      and w3: "w3 = set_attrs (w2\<lparr>heap := snd (load_or_empty y (heap w2))\<rparr>) self
                      (l\<lparr>config := fst (load_or_empty y (heap w2))\<rparr>)"
      by simp
    have c': "construct w cpath = (Inr self, (validate_required w3 self)\<lparr>cls_initialized := True\<rparr>)"
      by (simp add: c lc)
    have e3: "environ w3 = dotenv_applied (module_root w) w" by (simp add: w3 env)
    have l3: "logged w3 = logged w" "printed w3 = printed w"
      "logger_importable w3 = logger_importable w"
      by (simp_all add: w3 l2 l0 p2 p0 g2 g0)
    have warn: "dotenv_applied (module_root w) w ''OPENAI_API_KEY'' = None
                     \<or> dotenv_applied (module_root w) w ''OPENAI_API_KEY'' = Some []
                   \<longrightarrow> (if logger_importable w
                        then logged (snd (construct w cpath)) = logged w @ [api_key_warning]
                             \<and> printed (snd (construct w cpath)) = printed w
                        else printed (snd (construct w cpath))
                               = printed w @ [''WARNING: '' @ api_key_warning]
                             \<and> logged (snd (construct w cpath)) = logged w)"
    proof
      assume "dotenv_applied (module_root w) w ''OPENAI_API_KEY'' = None
                     \<or> dotenv_applied (module_root w) w ''OPENAI_API_KEY'' = Some []"
      then have "environ w3 ''OPENAI_API_KEY'' = None \<or> environ w3 ''OPENAI_API_KEY'' = Some []"
        by (simp add: e3)
      from validate_required_warns [OF this, of self] show
        "if logger_importable w
                        then logged (snd (construct w cpath)) = logged w @ [api_key_warning]
                             \<and> printed (snd (construct w cpath)) = printed w
                        else printed (snd (construct w cpath))
                               = printed w @ [''WARNING: '' @ api_key_warning]
                             \<and> logged (snd (construct w cpath)) = logged w"
        by (simp add: c' l3 split: if_splits)
    qed
    have quiet: "\<forall>k. dotenv_applied (module_root w) w ''OPENAI_API_KEY'' = Some k \<and> k \<noteq> []
                   \<longrightarrow> logged (snd (construct w cpath)) = logged w
                       \<and> printed (snd (construct w cpath)) = printed w"
    proof (intro allI impI)
      fix k
      assume "dotenv_applied (module_root w) w ''OPENAI_API_KEY'' = Some k \<and> k \<noteq> []"
      then have "environ w3 ''OPENAI_API_KEY'' = Some k" and "k \<noteq> []"
        by (simp_all add: e3)
      from validate_required_silent [OF this, of self] show
        "logged (snd (construct w cpath)) = logged w
           \<and> printed (snd (construct w cpath)) = printed w"
        by (simp add: c' l3)
    qed
    show "(\<exists>a. fst (construct w cpath) = Inr a)
                \<and> cls_initialized (snd (construct w cpath))
                \<and> (dotenv_applied (module_root w) w ''OPENAI_API_KEY'' = None
                     \<or> dotenv_applied (module_root w) w ''OPENAI_API_KEY'' = Some []
                   \<longrightarrow> (if logger_importable w
                        then logged (snd (construct w cpath)) = logged w @ [api_key_warning]
                             \<and> printed (snd (construct w cpath)) = printed w
                        else printed (snd (construct w cpath))
                               = printed w @ [''WARNING: '' @ api_key_warning]
                             \<and> logged (snd (construct w cpath)) = logged w))
                \<and> (\<forall>k. dotenv_applied (module_root w) w ''OPENAI_API_KEY'' = Some k \<and> k \<noteq> []
                   \<longrightarrow> logged (snd (construct w cpath)) = logged w
                       \<and> printed (snd (construct w cpath)) = printed w)"
      using warn quiet by (simp add: c')
  qed
  from 1 2 other 3 show ?thesis unfolding P_def by blast
qed

text \<open>
  C5. A construction call made while no construction has succeeded yet runs the
  initialisation, and then: when the path of the configuration document does not exist it
  fails with \<^verbatim>\<open>ConfigurationError\<close>, the message naming the path; when the document exists
  and the parser raises a \<^verbatim>\<open>yaml.YAMLError\<close> it fails with \<^verbatim>\<open>ConfigurationError\<close>, the
  message naming the path and ending with the text of the parse error (any other exception
  while reading is wrapped in the same way); when the document parses, construction
  succeeds whether the API credential is set or not: with the credential absent (unset or
  empty, after the override file is loaded) exactly one warning is emitted, through the
  logger if it can be imported, else printed with the prefix \<^verbatim>\<open>WARNING: \<close>, and with the
  credential present nothing is emitted.
\<close>

theorem C5_construction_failures:
  assumes "instance_ok w" and "\<not> cls_initialized w"
  shows "(files w (document_path w cpath) = None
            \<longrightarrow> fst (construct w cpath)
                  = Inl (ConfigurationError
                          (''Configuration file not found: '' @ document_path w cpath @ [CHR 0x0A]
                             @ ''Please ensure '' @ [CHR 0x27] @ ''configs/config.yaml''
                             @ [CHR 0x27] @ '' exists.'')))
       \<and> (\<forall>f e. files w (document_path w cpath) = Some f \<and> yaml_view f = RaisesYAMLError e
            \<longrightarrow> fst (construct w cpath)
                  = Inl (ConfigurationError
                          (''Invalid YAML in configuration file: '' @ document_path w cpath
                             @ [CHR 0x0A] @ ''Error: '' @ e)))
       \<and> (\<forall>f e. files w (document_path w cpath) = Some f \<and> yaml_view f = RaisesOther e
            \<longrightarrow> fst (construct w cpath)
                  = Inl (ConfigurationError
                          (''Failed to load configuration file: '' @ document_path w cpath
                             @ [CHR 0x0A] @ ''Error: '' @ e)))
       \<and> (\<forall>f y. files w (document_path w cpath) = Some f \<and> yaml_view f = Parses y
            \<longrightarrow> (\<exists>a. fst (construct w cpath) = Inr a)
                \<and> cls_initialized (snd (construct w cpath))
                \<and> (dotenv_applied (module_root w) w ''OPENAI_API_KEY'' = None
                     \<or> dotenv_applied (module_root w) w ''OPENAI_API_KEY'' = Some []
                   \<longrightarrow> (if logger_importable w
                        then logged (snd (construct w cpath))
                               = logged w
                                 @ [''OPENAI_API_KEY not set. LLM features will not work.''
                                    @ [CHR 0x0A]
                                    @ ''Set it in configs/.env or as an environment variable.'']
                             \<and> printed (snd (construct w cpath)) = printed w
                        else printed (snd (construct w cpath))
                               = printed w
                                 @ [''WARNING: ''
                                    @ ''OPENAI_API_KEY not set. LLM features will not work.''
                                    @ [CHR 0x0A]
                                    @ ''Set it in configs/.env or as an environment variable.'']
                             \<and> logged (snd (construct w cpath)) = logged w))
                \<and> (\<forall>k. dotenv_applied (module_root w) w ''OPENAI_API_KEY'' = Some k \<and> k \<noteq> []
                   \<longrightarrow> logged (snd (construct w cpath)) = logged w
                       \<and> printed (snd (construct w cpath)) = printed w))"
  using construct_fresh [OF assms, of cpath]
  unfolding not_found_msg_def invalid_yaml_msg_def load_failed_msg_def quoted_def
    api_key_warning_def append_assoc
  by blast

theorem C5_construction_failures_witness:
  "instance_ok demo_start \<and> \<not> cls_initialized demo_start
   \<and> files demo_start (document_path demo_start (Some ''/nowhere.yaml'')) = None
   \<and> fst (construct demo_start (Some ''/nowhere.yaml''))
       = Inl (ConfigurationError
               (''Configuration file not found: /nowhere.yaml'' @ [CHR 0x0A]
                  @ ''Please ensure '' @ [CHR 0x27] @ ''configs/config.yaml''
                  @ [CHR 0x27] @ '' exists.''))
   \<and> fst (construct demo_start (Some ''/app/configs/broken.yaml''))
       = Inl (ConfigurationError
               (''Invalid YAML in configuration file: /app/configs/broken.yaml'' @ [CHR 0x0A]
                  @ ''Error: mapping values are not allowed here''))
   \<and> (\<exists>a. fst (construct demo_start None) = Inr a)
   \<and> dotenv_applied (module_root demo_start) demo_start ''OPENAI_API_KEY'' = None
   \<and> printed (snd (construct demo_start None))
       = [''WARNING: OPENAI_API_KEY not set. LLM features will not work.'' @ [CHR 0x0A]
            @ ''Set it in configs/.env or as an environment variable.'']
   \<and> logged (snd (construct demo_start None)) = []"
proof -
  note t = C5_construction_failures [OF demo_start_ok]
  from t [of "Some ''/nowhere.yaml''"]
  have 1: "fst (construct demo_start (Some ''/nowhere.yaml''))
       = Inl (ConfigurationError
               (''Configuration file not found: /nowhere.yaml'' @ [CHR 0x0A]
                  @ ''Please ensure '' @ [CHR 0x27] @ ''configs/config.yaml''
                  @ [CHR 0x27] @ '' exists.''))"
    by (simp add: demo_start_paths demo_start_files)
  from t [of "Some ''/app/configs/broken.yaml''"]
  have 2: "fst (construct demo_start (Some ''/app/configs/broken.yaml''))
       = Inl (ConfigurationError
               (''Invalid YAML in configuration file: /app/configs/broken.yaml'' @ [CHR 0x0A]
                  @ ''Error: mapping values are not allowed here''))"
    by (simp add: demo_start_paths demo_start_files)
  from t [of None]
  have 3: "(\<exists>a. fst (construct demo_start None) = Inr a)
     \<and> printed (snd (construct demo_start None))
         = [''WARNING: OPENAI_API_KEY not set. LLM features will not work.'' @ [CHR 0x0A]
              @ ''Set it in configs/.env or as an environment variable.'']
     \<and> logged (snd (construct demo_start None)) = []"
    by (simp add: demo_start_paths demo_start_files demo_start_key demo_start_io)
  from 1 2 3 demo_start_ok demo_start_key show ?thesis
    by (simp add: demo_start_paths demo_start_files)
qed

text \<open>
  The sentence of C5 without the condition fails: in the example process, where a
  construction has succeeded, a construction call with a path that does not exist returns
  the instance and raises nothing.
\<close>

theorem C5_initialized_counterexample:
  "files demo_world (document_path demo_world (Some ''/nowhere.yaml'')) = None
   \<and> construct demo_world (Some ''/nowhere.yaml'') = (Inr 0, demo_world)"
  by (simp add: construct_initialized [OF demo_world_facts(1,2)] document_path_def
      demo_world_facts demo_start_files)

text \<open>
  C4. In a run of a process (construction calls, reloads, changes of the environment and
  of the files in any order), every construction call that returns, returns the same
  instance; and once a construction has succeeded, a further construction call with any
  path argument returns that instance and leaves the whole state as it is: the argument is
  ignored, no override is loaded, no document is parsed, no warning is emitted.
\<close>

theorem C4_singleton:
  assumes "instance_ok w"
  shows "(\<forall>a b. Inr a \<in> set (fst (run w es)) \<and> Inr b \<in> set (fst (run w es)) \<longrightarrow> a = b)
       \<and> (\<forall>a cpath. Inr a \<in> set (fst (run w es))
            \<longrightarrow> construct (snd (run w es)) cpath = (Inr a, snd (run w es)))"
proof (intro conjI allI impI)
  fix a b
  assume "Inr a \<in> set (fst (run w es)) \<and> Inr b \<in> set (fst (run w es))"
  with run_returned [OF assms, of a es] run_returned [OF assms, of b es] show "a = b" by simp
next
  fix a cpath
  assume "Inr a \<in> set (fst (run w es))"
  from run_returned [OF assms this] show
    "construct (snd (run w es)) cpath = (Inr a, snd (run w es))"
    by (simp add: construct_initialized)
qed


theorem C4_singleton_witness:
  "instance_ok demo_start
   \<and> fst (run demo_start demo_events)
       = [Inl (ConfigurationError (not_found_msg ''/nowhere.yaml'')), Inr 0, Inr 0, Inr 0]
   \<and> construct (snd (run demo_start demo_events)) (Some ''/elsewhere.yaml'')
       = (Inr 0, snd (run demo_start demo_events))"
  using C4_singleton [OF demo_start_ok(1), of demo_events] demo_start_ok(1)
  by (simp add: demo_run)

section \<open>Sections and the copies handed to callers\<close>

text \<open>
  C3. Let the loaded tree be a mapping. For every name that is not one of its top-level
  keys, \<^verbatim>\<open>get_section(name)\<close> raises \<^verbatim>\<open>MissingConfigError\<close> and changes nothing. For every
  top-level name whose value is a mapping, \<^verbatim>\<open>get_section(name)\<close> returns a new object, a
  mapping whose entries stand for the entries of that section of the document; and
  whatever the caller then does to this returned object (any replacement \<open>d'\<close> of its
  content), the resolver keeps its attributes, its tree still stands for the whole
  document, every object that existed before the call is as it was, every later
  \<^verbatim>\<open>get\<close> returns what it returned before, and every later \<^verbatim>\<open>get_section\<close> returns an
  object with the content it had before.
\<close>

theorem C3_section_copy:
  assumes "attrs w self = Some l"
    and "represents (heap w) (config l) (YMap secs)"
  shows "(name \<notin> set (map fst secs)
            \<longrightarrow> get_section w self name
                  = (Inl (MissingConfigError (missing_section_msg name)), w))
       \<and> (\<forall>sec. map_of secs name = Some (YMap sec) \<longrightarrow>
            (\<exists>d. get_section w self name
                   = (Inr (PRef (length (heap w))), w\<lparr>heap := heap w @ [PDict d]\<rparr>)
                 \<and> represents_items (heap w) d sec
                 \<and> (\<forall>d'. attrs (mutate (snd (get_section w self name)) (length (heap w)) (PDict d')) self
                           = Some l
                        \<and> represents
                            (heap (mutate (snd (get_section w self name)) (length (heap w)) (PDict d')))
                            (config l) (YMap secs)
                        \<and> (\<forall>a < length (heap w).
                              heap (mutate (snd (get_section w self name)) (length (heap w)) (PDict d')) ! a
                                = heap w ! a)
                        \<and> (\<forall>key dflt req.
                              get (mutate (snd (get_section w self name)) (length (heap w)) (PDict d'))
                                  self key dflt req
                                = get w self key dflt req)
                        \<and> (\<forall>n. returned_object
                                  (get_section
                                     (mutate (snd (get_section w self name)) (length (heap w)) (PDict d'))
                                     self n)
                                = returned_object (get_section w self n)))))"
proof (intro conjI allI impI)
  assume "name \<notin> set (map fst secs)"
  from get_section_absent [OF assms this]
  show "get_section w self name = (Inl (MissingConfigError (missing_section_msg name)), w)" .
next
  fix sec
  assume m: "map_of secs name = Some (YMap sec)"
  from get_section_present [OF assms m] obtain v where g: "get_section w self name = copy w v"
    and r: "represents (heap w) v (YMap sec)" by blast
  from copy_map [OF r] g obtain d where
    gs: "get_section w self name
          = (Inr (PRef (length (heap w))), w\<lparr>heap := heap w @ [PDict d]\<rparr>)"
    and rd: "represents_items (heap w) d sec" by auto
  have frame: "attrs (mutate (snd (get_section w self name)) (length (heap w)) (PDict d')) self
                           = Some l
                        \<and> represents
                            (heap (mutate (snd (get_section w self name)) (length (heap w)) (PDict d')))
                            (config l) (YMap secs)
                        \<and> (\<forall>a < length (heap w).
                              heap (mutate (snd (get_section w self name)) (length (heap w)) (PDict d')) ! a
                                = heap w ! a)
                        \<and> (\<forall>key dflt req.
                              get (mutate (snd (get_section w self name)) (length (heap w)) (PDict d'))
                                  self key dflt req
                                = get w self key dflt req)
                        \<and> (\<forall>n. returned_object
                                  (get_section
                                     (mutate (snd (get_section w self name)) (length (heap w)) (PDict d'))
                                     self n)
                                = returned_object (get_section w self n))" for d'
  proof -
    define w2 where "w2 = mutate (snd (get_section w self name)) (length (heap w)) (PDict d')"
    have h2: "heap w2 = heap w @ [PDict d']" by (simp add: w2_def gs mutate_def)
    have o2: "environ w2 = environ w" "int_of_str w2 = int_of_str w"
      "float_of_str w2 = float_of_str w" "str_upper w2 = str_upper w"
      by (simp_all add: w2_def gs mutate_def)
    from assms(1) have s: "self < length (heap w)"
      by (auto simp: attrs_def heap_lookup_def split: if_splits)
    have a2: "attrs w2 self = Some l"
      using assms(1) s by (simp add: attrs_def heap_lookup_def h2 nth_append)
    have r2: "represents (heap w2) (config l) (YMap secs)"
      unfolding h2 using assms(2) by (rule represents_mono)
    have f2: "\<forall>a < length (heap w). heap w2 ! a = heap w ! a"
      by (simp add: h2 nth_append)
    have g2: "\<forall>key dflt req. get w2 self key dflt req = get w self key dflt req"
      using get_extend [OF assms(1) assms(2) a2 h2 o2] by blast
    have s2: "\<forall>n. returned_object (get_section w2 self n) = returned_object (get_section w self n)"
      using returned_object_section_extend [OF assms(1) assms(2) a2 h2] by blast
    from a2 r2 f2 g2 s2 show ?thesis unfolding w2_def by blast
  qed
  show "\<exists>d. get_section w self name
                   = (Inr (PRef (length (heap w))), w\<lparr>heap := heap w @ [PDict d]\<rparr>)
                 \<and> represents_items (heap w) d sec
                 \<and> (\<forall>d'. attrs (mutate (snd (get_section w self name)) (length (heap w)) (PDict d')) self
                           = Some l
                        \<and> represents
                            (heap (mutate (snd (get_section w self name)) (length (heap w)) (PDict d')))
                            (config l) (YMap secs)
                        \<and> (\<forall>a < length (heap w).
                              heap (mutate (snd (get_section w self name)) (length (heap w)) (PDict d')) ! a
                                = heap w ! a)
                        \<and> (\<forall>key dflt req.
                              get (mutate (snd (get_section w self name)) (length (heap w)) (PDict d'))
                                  self key dflt req
                                = get w self key dflt req)
                        \<and> (\<forall>n. returned_object
                                  (get_section
                                     (mutate (snd (get_section w self name)) (length (heap w)) (PDict d'))
                                     self n)
                                = returned_object (get_section w self n)))"
    using gs rd frame by blast
qed

theorem C3_section_copy_witness:
  "attrs demo_world 0 = Some demo_loader
   \<and> represents (heap demo_world) (config demo_loader) (YMap demo_sections)
   \<and> ''nope'' \<notin> set (map fst demo_sections)
   \<and> get_section demo_world 0 ''nope''
       = (Inl (MissingConfigError (missing_section_msg ''nope'')), demo_world)
   \<and> map_of demo_sections ''llm''
       = Some (YMap [(''model'', YStr ''gpt-3.5-turbo''), (''options'', YMap [(''seed'', YInt 1)])])
   \<and> fst (get_section demo_world 0 ''llm'') = Inr (PRef 9)
   \<and> get (mutate (snd (get_section demo_world 0 ''llm'')) 9 (PDict [])) 0 ''llm.model'' PNone False
       = get demo_world 0 ''llm.model'' PNone False"
proof -
  note t = C3_section_copy [OF demo_attrs demo_represents]
  have n: "''nope'' \<notin> set (map fst demo_sections)"
    by (simp add: demo_sections_def)
  have m: "map_of demo_sections ''llm''
       = Some (YMap [(''model'', YStr ''gpt-3.5-turbo''), (''options'', YMap [(''seed'', YInt 1)])])"
    by (simp add: demo_sections_def)
  have len: "length (heap demo_world) = 9"
    by (simp add: demo_heap)
  from t [of "''nope''"] n have 1: "get_section demo_world 0 ''nope''
       = (Inl (MissingConfigError (missing_section_msg ''nope'')), demo_world)"
    by blast
  from t [of "''llm''"] m obtain d where
    g: "get_section demo_world 0 ''llm''
          = (Inr (PRef (length (heap demo_world))), demo_world\<lparr>heap := heap demo_world @ [PDict d]\<rparr>)"
    and f: "\<forall>key dflt req.
              get (mutate (snd (get_section demo_world 0 ''llm'')) (length (heap demo_world)) (PDict []))
                  0 key dflt req
                = get demo_world 0 key dflt req"
    by blast
  from g have 2: "fst (get_section demo_world 0 ''llm'') = Inr (PRef 9)"
    by (simp add: len)
  from f have 3: "get (mutate (snd (get_section demo_world 0 ''llm'')) 9 (PDict [])) 0 ''llm.model'' PNone False
       = get demo_world 0 ''llm.model'' PNone False"
    by (simp only: len)
  from demo_attrs demo_represents n 1 m 2 3 show ?thesis by blast
qed

text \<open>
  The copy is one level deep: the nested values of the returned mapping are the objects of
  the tree itself. In the example process the caller reaches the mapping \<^verbatim>\<open>options\<close>
  through the copy of the section \<^verbatim>\<open>llm\<close> and sets \<^verbatim>\<open>seed\<close> in it; the result of a
  later \<^verbatim>\<open>get("llm.options.seed")\<close> changes from 1 to 2.
\<close>

theorem C3_nested_mutation_counterexample:
  "fst demo_section = Inr (PRef 9)
   \<and> demo_nested = Inr (PRef 5)
   \<and> get demo_world 0 ''llm.options.seed'' PNone False = Inr (PInt 1)
   \<and> get demo_mutated 0 ''llm.options.seed'' PNone False = Inr (PInt 2)"
proof -
  have w: "environ demo_mutated = environ demo_world" "str_upper demo_mutated = upper"
    by (simp_all add: demo_mutated_def demo_nested_eval demo_section_llm setitem_def
        heap_lookup_def demo_heap demo_str_upper)
  have a: "attrs demo_mutated 0 = Some demo_loader"
    by (simp add: attrs_def heap_lookup_def demo_mutated_heap demo_heap)
  have e1: "environ demo_world (env_key demo_world ''llm.options.seed'') = None"
    by (simp add: env_key_eval demo_environ)
  have e2: "environ demo_mutated (env_key demo_mutated ''llm.options.seed'') = None"
    by (simp add: w env_key_def upper_def upper_char_def replace_char_def demo_environ)
  have g1: "get demo_world 0 ''llm.options.seed'' PNone False = Inr (PInt 1)"
    by (simp add: get_unset [OF e1 demo_attrs] segments_def demo_config dict_entry_def
        heap_lookup_def demo_heap)
  have g2: "get demo_mutated 0 ''llm.options.seed'' PNone False = Inr (PInt 2)"
    by (simp add: get_unset [OF e2 a] segments_def demo_config dict_entry_def
        heap_lookup_def demo_mutated_heap demo_heap)
  show ?thesis by (simp add: g1 g2 demo_nested_eval demo_section_llm)
qed

text \<open>
  C10. Let the loaded tree be a mapping and \<open>name\<close> one of its top-level keys, with the
  value \<open>y\<close>. Then \<^verbatim>\<open>get_section(name)\<close> never raises \<^verbatim>\<open>MissingConfigError\<close>; when \<open>y\<close>
  is a scalar it raises \<^verbatim>\<open>AttributeError\<close> and changes nothing; when \<open>y\<close> is a sequence
  it returns normally: a new list whose entries stand for the entries of \<open>y\<close>.
\<close>

theorem C10_non_mapping_section:
  assumes "attrs w self = Some l"
    and "represents (heap w) (config l) (YMap secs)"
    and "map_of secs name = Some y"
  shows "(is_scalar y \<longrightarrow> get_section w self name = (Inl AttributeError, w))
       \<and> (\<forall>ys. y = YSeq ys \<longrightarrow>
            (\<exists>vs. get_section w self name
                    = (Inr (PRef (length (heap w))), w\<lparr>heap := heap w @ [PList vs]\<rparr>)
                  \<and> represents_list (heap w) vs ys))
       \<and> (\<forall>m. fst (get_section w self name) \<noteq> Inl (MissingConfigError m))"
proof -
  from get_section_present [OF assms] obtain v where g: "get_section w self name = copy w v"
    and r: "represents (heap w) v y" by blast
  have 1: "is_scalar y \<longrightarrow> get_section w self name = (Inl AttributeError, w)"
    using copy_scalar [OF r] g by simp
  have 2: "\<forall>ys. y = YSeq ys \<longrightarrow>
            (\<exists>vs. get_section w self name
                    = (Inr (PRef (length (heap w))), w\<lparr>heap := heap w @ [PList vs]\<rparr>)
                  \<and> represents_list (heap w) vs ys)"
    using copy_seq r g by auto
  have 3: "\<forall>m. fst (get_section w self name) \<noteq> Inl (MissingConfigError m)"
  proof (cases "is_scalar y")
    case True
    with 1 show ?thesis by simp
  next
    case False
    then show ?thesis
    proof (cases y)
      case (YSeq ys)
      with 2 show ?thesis by auto
    next
      case (YMap kvs)
      with copy_map r g show ?thesis by fastforce
    qed simp_all
  qed
  from 1 2 3 show ?thesis by blast
qed

theorem C10_non_mapping_section_witness:
  "attrs demo_world 0 = Some demo_loader
   \<and> represents (heap demo_world) (config demo_loader) (YMap demo_sections)
   \<and> map_of demo_sections ''retries'' = Some (YInt 3)
   \<and> is_scalar (YInt 3)
   \<and> get_section demo_world 0 ''retries'' = (Inl AttributeError, demo_world)
   \<and> map_of demo_sections ''tags'' = Some (YSeq [YStr ''exam''])
   \<and> fst (get_section demo_world 0 ''tags'') = Inr (PRef 9)"
proof -
  note t = C10_non_mapping_section [OF demo_attrs demo_represents]
  have m1: "map_of demo_sections ''retries'' = Some (YInt 3)"
    by (simp add: demo_sections_def)
  have m2: "map_of demo_sections ''tags'' = Some (YSeq [YStr ''exam''])"
    by (simp add: demo_sections_def)
  have len: "length (heap demo_world) = 9"
    by (simp add: demo_heap)
  from t [OF m1] have 1: "get_section demo_world 0 ''retries'' = (Inl AttributeError, demo_world)"
    by simp
  from t [OF m2] obtain vs where
    "get_section demo_world 0 ''tags''
       = (Inr (PRef (length (heap demo_world))), demo_world\<lparr>heap := heap demo_world @ [PList vs]\<rparr>)"
    by blast
  then have 2: "fst (get_section demo_world 0 ''tags'') = Inr (PRef 9)"
    by (simp add: len)
  from demo_attrs demo_represents m1 1 m2 2 show ?thesis by simp
qed

text \<open>
  A sequence has the method \<^verbatim>\<open>copy\<close>: in the example process \<^verbatim>\<open>get_section("tags")\<close>
  returns normally, with a new list.
\<close>

theorem C10_sequence_counterexample:
  "map_of demo_sections ''tags'' = Some (YSeq [YStr ''exam''])
   \<and> fst (get_section demo_world 0 ''tags'') = Inr (PRef 9)
   \<and> heap (snd (get_section demo_world 0 ''tags'')) ! 9 = PList [PStr ''exam'']"
  by (simp add: demo_sections_def demo_section_tags)

section \<open>Reloading\<close>

text \<open>
  C8. \<^verbatim>\<open>reload()\<close> on a resolver that has its attributes loads the override source again
  and parses the document again. It emits no warning (the validation is not run again),
  and every object other than the resolver itself is left as it was, so that a value or a
  copy handed to a caller before still stands for what it stood for. When the document
  parses, \<^verbatim>\<open>reload\<close> returns normally, the resolver keeps its paths and its tree stands
  for the newly parsed document (for an empty mapping when that document is false); from
  then on a \<^verbatim>\<open>get\<close> for a key whose override variable is set returns the coerced
  override, and a \<^verbatim>\<open>get\<close> for a key whose override variable is unset returns what the
  new document has at the path of the key, and when the new document has nothing there it
  raises \<^verbatim>\<open>MissingConfigError\<close> if the key is required and returns the default if not.
  When the document is missing or cannot be read, \<^verbatim>\<open>reload\<close> raises
  \<^verbatim>\<open>ConfigurationError\<close> and the resolver keeps the tree it had.
\<close>

theorem C8_reload:
  assumes "attrs w self = Some l"
  shows "environ (snd (reload w self)) = dotenv_applied (project_root l) w
       \<and> logged (snd (reload w self)) = logged w
       \<and> printed (snd (reload w self)) = printed w
       \<and> (\<forall>a < length (heap w). a \<noteq> self \<longrightarrow> heap (snd (reload w self)) ! a = heap w ! a)
       \<and> (\<forall>v y0. represents (heap w) v y0 \<longrightarrow> represents (heap (snd (reload w self))) v y0)
       \<and> (\<forall>f y. files w (config_path l) = Some f \<and> yaml_view f = Parses y \<longrightarrow>
            fst (reload w self) = None
            \<and> (\<exists>l'. attrs (snd (reload w self)) self = Some l'
                   \<and> project_root l' = project_root l \<and> config_path l' = config_path l
                   \<and> represents (heap (snd (reload w self))) (config l')
                        (if truthy y then y else YMap []))
            \<and> (\<forall>key dflt req.
                  (\<forall>s. dotenv_applied (project_root l) w (env_key w key) = Some s
                     \<longrightarrow> get (snd (reload w self)) self key dflt req = Inr (convert_type w s))
                  \<and> (dotenv_applied (project_root l) w (env_key w key) = None
                     \<longrightarrow> (case ypath (if truthy y then y else YMap []) (segments key) of
                            Some y' \<Rightarrow>
                              (\<exists>v. get (snd (reload w self)) self key dflt req = Inr v
                                   \<and> represents (heap (snd (reload w self))) v y')
                          | None \<Rightarrow>
                              get (snd (reload w self)) self key dflt req
                                = (if req then Inl (MissingConfigError (missing_key_msg key))
                                   else Inr dflt)))))
       \<and> (files w (config_path l) = None
            \<or> (\<exists>f e. files w (config_path l) = Some f
                  \<and> (yaml_view f = RaisesYAMLError e \<or> yaml_view f = RaisesOther e))
          \<longrightarrow> (\<exists>m. fst (reload w self) = Some (ConfigurationError m))
              \<and> (\<exists>b. attrs (snd (reload w self)) self = Some (l\<lparr>env_loaded := b\<rparr>)))"
proof -
  note fr = reload_frame [OF assms]
  have 4: "\<forall>a < length (heap w). a \<noteq> self \<longrightarrow> heap (snd (reload w self)) ! a = heap w ! a"
    using fr(11) by blast
  have 5: "\<forall>v y0. represents (heap w) v y0 \<longrightarrow> represents (heap (snd (reload w self))) v y0"
  proof (intro allI impI)
    fix v y0
    assume "represents (heap w) v y0"
    with represents_frame [OF fr(10) fr(11) attrs_loader [OF assms]]
    show "represents (heap (snd (reload w self))) v y0" by blast
  qed
  have 6: "\<forall>f y. files w (config_path l) = Some f \<and> yaml_view f = Parses y \<longrightarrow>
            fst (reload w self) = None
            \<and> (\<exists>l'. attrs (snd (reload w self)) self = Some l'
                   \<and> project_root l' = project_root l \<and> config_path l' = config_path l
                   \<and> represents (heap (snd (reload w self))) (config l')
                        (if truthy y then y else YMap []))
            \<and> (\<forall>key dflt req.
                  (\<forall>s. dotenv_applied (project_root l) w (env_key w key) = Some s
                     \<longrightarrow> get (snd (reload w self)) self key dflt req = Inr (convert_type w s))
                  \<and> (dotenv_applied (project_root l) w (env_key w key) = None
                     \<longrightarrow> (case ypath (if truthy y then y else YMap []) (segments key) of
                            Some y' \<Rightarrow>
                              (\<exists>v. get (snd (reload w self)) self key dflt req = Inr v
                                   \<and> represents (heap (snd (reload w self))) v y')
                          | None \<Rightarrow>
                              get (snd (reload w self)) self key dflt req
                                = (if req then Inl (MissingConfigError (missing_key_msg key))
                                   else Inr dflt))))"
  proof (intro allI impI)
    fix f y
    assume h: "files w (config_path l) = Some f \<and> yaml_view f = Parses y"
    then have f: "files w (config_path l) = Some f" and y: "yaml_view f = Parses y" by simp_all
    from reload_parses [OF assms f y] reload_get [OF assms f y]
    show "fst (reload w self) = None
            \<and> (\<exists>l'. attrs (snd (reload w self)) self = Some l'
                   \<and> project_root l' = project_root l \<and> config_path l' = config_path l
                   \<and> represents (heap (snd (reload w self))) (config l')
                        (if truthy y then y else YMap []))
            \<and> (\<forall>key dflt req.
                  (\<forall>s. dotenv_applied (project_root l) w (env_key w key) = Some s
                     \<longrightarrow> get (snd (reload w self)) self key dflt req = Inr (convert_type w s))
                  \<and> (dotenv_applied (project_root l) w (env_key w key) = None
                     \<longrightarrow> (case ypath (if truthy y then y else YMap []) (segments key) of
                            Some y' \<Rightarrow>
                              (\<exists>v. get (snd (reload w self)) self key dflt req = Inr v
                                   \<and> represents (heap (snd (reload w self))) v y')
                          | None \<Rightarrow>
                              get (snd (reload w self)) self key dflt req
                                = (if req then Inl (MissingConfigError (missing_key_msg key))
                                   else Inr dflt))))"
      by blast
  qed
  have 7: "files w (config_path l) = None
            \<or> (\<exists>f e. files w (config_path l) = Some f
                  \<and> (yaml_view f = RaisesYAMLError e \<or> yaml_view f = RaisesOther e))
          \<longrightarrow> (\<exists>m. fst (reload w self) = Some (ConfigurationError m))
              \<and> (\<exists>b. attrs (snd (reload w self)) self = Some (l\<lparr>env_loaded := b\<rparr>))"
    using reload_fails [OF assms] by blast
  from fr(1) fr(2) fr(3) 4 5 6 7 show ?thesis by blast
qed

theorem C8_reload_witness:
  "attrs demo_edited 0 = Some demo_loader
   \<and> files demo_edited (config_path demo_loader)
       = Some \<lparr>dotenv_view = [], yaml_view = Parses demo_doc_edited\<rparr>
   \<and> dotenv_applied (project_root demo_loader) demo_edited (env_key demo_edited ''retries'') = None
   \<and> fst (reload demo_edited 0) = None
   \<and> get (snd (reload demo_edited 0)) 0 ''retries'' PNone False = Inr (PInt 5)
   \<and> printed (snd (reload demo_edited 0)) = printed demo_edited
   \<and> heap (snd (reload demo_edited 0)) ! 8 = heap demo_edited ! 8
   \<and> attrs demo_deleted 0 = Some demo_loader
   \<and> files demo_deleted (config_path demo_loader) = None
   \<and> (\<exists>m. fst (reload demo_deleted 0) = Some (ConfigurationError m))"
proof -
  note t = C8_reload [OF demo_edited_facts(1)]
  have u: "dotenv_applied (project_root demo_loader) demo_edited (env_key demo_edited ''retries'') = None"
    by (simp add: demo_edited_facts demo_edited_keys demo_environ)
  have p: "ypath (if truthy demo_doc_edited then demo_doc_edited else YMap []) (segments ''retries'')
             = Some (YInt 5)"
    by (simp add: demo_doc_edited_def segments_def)
  from t demo_edited_facts(2) demo_edited_view have 1: "fst (reload demo_edited 0) = None"
    by blast
  from t demo_edited_facts(2) demo_edited_view u
  have "case ypath (if truthy demo_doc_edited then demo_doc_edited else YMap []) (segments ''retries'') of
          Some y' \<Rightarrow>
            (\<exists>v. get (snd (reload demo_edited 0)) 0 ''retries'' PNone False = Inr v
                 \<and> represents (heap (snd (reload demo_edited 0))) v y')
        | None \<Rightarrow>
            get (snd (reload demo_edited 0)) 0 ''retries'' PNone False
              = (if False then Inl (MissingConfigError (missing_key_msg ''retries'')) else Inr PNone)"
    by blast
  then have 2: "get (snd (reload demo_edited 0)) 0 ''retries'' PNone False = Inr (PInt 5)"
    by (auto simp: p)
  from t have 3: "printed (snd (reload demo_edited 0)) = printed demo_edited"
    by blast
  have "(8::nat) < length (heap demo_edited)" "(8::nat) \<noteq> 0"
    by (simp_all add: demo_edited_facts demo_heap)
  with t have 4: "heap (snd (reload demo_edited 0)) ! 8 = heap demo_edited ! 8"
    by blast
  from C8_reload [OF demo_deleted_facts(1)] demo_deleted_facts(2)
  have 5: "\<exists>m. fst (reload demo_deleted 0) = Some (ConfigurationError m)"
    by blast
  from demo_edited_facts(1,2) u 1 2 3 4 demo_deleted_facts 5 show ?thesis by blast
qed

text \<open>
  Not every later \<^verbatim>\<open>get\<close> follows the new document: in the example process the chunk
  size has an override; after the document is edited to 600 and reloaded,
  \<^verbatim>\<open>get("document_processing.chunk_size")\<close> still returns 800.
\<close>

theorem C8_override_counterexample:
  "fst (reload demo_edited 0) = None
   \<and> ypath demo_doc_edited (segments ''document_processing.chunk_size'') = Some (YInt 600)
   \<and> get demo_world 0 ''document_processing.chunk_size'' PNone False = Inr (PInt 800)
   \<and> get (snd (reload demo_edited 0)) 0 ''document_processing.chunk_size'' PNone False
       = Inr (PInt 800)"
proof -
  note p = reload_parses [OF demo_edited_facts(1) demo_edited_facts(2) demo_edited_view]
  note g = reload_get [OF demo_edited_facts(1) demo_edited_facts(2) demo_edited_view,
      of "''document_processing.chunk_size''" PNone False]
  have c: "convert_type demo_edited ''800'' = PInt 800" "convert_type demo_world ''800'' = PInt 800"
    by (simp_all add: convert_type_def lower_def lower_char_def demo_edited_facts
        demo_int_of_str demo_int_def)
  have o: "dotenv_applied (project_root demo_loader) demo_edited
             (env_key demo_edited ''document_processing.chunk_size'') = Some ''800''"
    by (simp add: demo_edited_facts demo_edited_keys demo_environ)
  from g o have 1: "get (snd (reload demo_edited 0)) 0 ''document_processing.chunk_size'' PNone False
       = Inr (PInt 800)"
    by (simp add: c)
  have 2: "get demo_world 0 ''document_processing.chunk_size'' PNone False = Inr (PInt 800)"
    by (simp add: get_def demo_chunk_size_override c)
  have 3: "ypath demo_doc_edited (segments ''document_processing.chunk_size'') = Some (YInt 600)"
    by (simp add: demo_doc_edited_def segments_def)
  from p 1 2 3 show ?thesis by simp
qed

end
